theory Spec2Isabelle
  imports Complex_Main
begin

section \<open>Python values and exceptions\<close>

text \<open>
  The service in \<^verbatim>\<open>main.py\<close> reads documents from a Firestore collection, turns every
  field value into a JSON-safe value with \<^verbatim>\<open>to_jsonable\<close> and answers two GET endpoints.
  Exceptions are values: every function that can raise returns \<open>error + 'a\<close>, with
  \<open>Inl\<close> for the exception.
\<close>

datatype error =
    OverflowError
  | KeyError string
  | TypeError
  | ValueError
  | HTTPException nat string

subsection \<open>The datetime library\<close>

text \<open>
  A Python \<^verbatim>\<open>datetime\<close> stores calendar fields, the \<^verbatim>\<open>fold\<close> flag and an optional
  \<^verbatim>\<open>tzinfo\<close>. A \<^verbatim>\<open>tzinfo\<close> object answers two questions: the UTC offset of a local
  wall-clock reading (\<^verbatim>\<open>utcoffset\<close>), and, for a wall-clock reading in UTC, the offset in
  force and the fold of the local reading (what \<^verbatim>\<open>fromutc\<close> adds). Offsets are taken
  in whole seconds, the resolution of the zone database. \<^verbatim>\<open>astimezone\<close> compares zone
  objects by identity (\<^verbatim>\<open>is\<close>), not by key: \<open>tz_id\<close> is the identity of the object, so
  two objects built for the same key have the same \<open>tzkey\<close> and different \<open>tz_id\<close>.
\<close>

record civil =
  year :: nat
  month :: nat
  day :: nat
  hour :: nat
  minute :: nat
  second :: nat
  microsecond :: nat
  foldf :: nat

datatype tzinfo =
  TZ (tz_id: nat) (tzkey: string) (utcoffset: "civil \<Rightarrow> int")
     (utc_info: "civil \<Rightarrow> int \<times> nat")

record datetime =
  civil :: civil
  tzinfo :: "tzinfo option"

text \<open>The calendar arithmetic of the library (\<^verbatim>\<open>_ymd2ord\<close>, \<^verbatim>\<open>_ord2ymd\<close>).\<close>

definition is_leap :: "nat \<Rightarrow> bool" where
  "is_leap y = (y mod 4 = 0 \<and> (y mod 100 \<noteq> 0 \<or> y mod 400 = 0))"

definition days_before_year :: "nat \<Rightarrow> nat" where
  "days_before_year y = (y - 1) * 365 + (y - 1) div 4 - (y - 1) div 100 + (y - 1) div 400"

definition DAYS_IN_MONTH :: "nat list" where
  "DAYS_IN_MONTH = [0, 31, 28, 31, 30, 31, 30, 31, 31, 30, 31, 30, 31]"

definition DAYS_BEFORE_MONTH :: "nat list" where
  "DAYS_BEFORE_MONTH = [0, 0, 31, 59, 90, 120, 151, 181, 212, 243, 273, 304, 334]"

definition days_in_month :: "nat \<Rightarrow> nat \<Rightarrow> nat" where
  "days_in_month y m = (if m = 2 \<and> is_leap y then 29 else DAYS_IN_MONTH ! m)"

definition days_before_month :: "nat \<Rightarrow> nat \<Rightarrow> nat" where
  "days_before_month y m = DAYS_BEFORE_MONTH ! m + (if m > 2 \<and> is_leap y then 1 else 0)"

definition ymd2ord :: "nat \<Rightarrow> nat \<Rightarrow> nat \<Rightarrow> nat" where
  "ymd2ord y m d = days_before_year y + days_before_month y m + d"

definition MAXORDINAL :: int where
  "MAXORDINAL = 3652059"

definition ord2ymd :: "nat \<Rightarrow> nat \<times> nat \<times> nat" where
  "ord2ymd ordinal =
     (let n = ordinal - 1;
          n400 = n div 146097; n = n mod 146097;
          n100 = n div 36524; n = n mod 36524;
          n4 = n div 1461; n = n mod 1461;
          n1 = n div 365; n = n mod 365;
          y = n400 * 400 + 1 + n100 * 100 + n4 * 4 + n1
      in if n1 = 4 \<or> n100 = 4 then (y - 1, 12, 31)
         else
           let leapyear = (n1 = 3 \<and> (n4 \<noteq> 24 \<or> n100 = 3));
               m = (n + 50) div 32;
               preceding = DAYS_BEFORE_MONTH ! m + (if m > 2 \<and> leapyear then 1 else 0)
           in if preceding > n
              then let m' = m - 1;
                       preceding' = preceding
                         - (DAYS_IN_MONTH ! m' + (if m' = 2 \<and> leapyear then 1 else 0))
                   in (y, m', n - preceding' + 1)
              else (y, m, n - preceding + 1))"

text \<open>
  \<^verbatim>\<open>datetime + timedelta\<close>: the sum is computed on days and seconds, the result has
  fold 0, and a day outside \<open>1 .. MAXORDINAL\<close> raises \<^verbatim>\<open>OverflowError\<close>.
\<close>

definition add_seconds :: "civil \<Rightarrow> int \<Rightarrow> error + civil" where
  "add_seconds c delta =
     (let secs = int (hour c) * 3600 + int (minute c) * 60 + int (second c) + delta;
          days = int (ymd2ord (year c) (month c) (day c)) + secs div 86400;
          rem = nat (secs mod 86400)
      in if 0 < days \<and> days \<le> MAXORDINAL
         then (case ord2ymd (nat days) of (y, m, d) \<Rightarrow>
                 Inr \<lparr>year = y, month = m, day = d,
                      hour = rem div 3600, minute = rem mod 3600 div 60, second = rem mod 60,
                      microsecond = microsecond c, foldf = 0\<rparr>)
         else Inl OverflowError)"

text \<open>\<^verbatim>\<open>v.replace(tzinfo=tz)\<close> keeps every calendar field and the fold.\<close>

definition replace_tzinfo :: "datetime \<Rightarrow> tzinfo \<Rightarrow> datetime" where
  "replace_tzinfo v tz = v\<lparr>tzinfo := Some tz\<rparr>"

text \<open>\<^verbatim>\<open>tz.fromutc(utc)\<close>: add the offset in force at that UTC reading, set the fold.\<close>

definition fromutc :: "tzinfo \<Rightarrow> civil \<Rightarrow> error + datetime" where
  "fromutc tz utc =
     (case utc_info tz utc of (off, f) \<Rightarrow>
        (case add_seconds utc off of
           Inl e \<Rightarrow> Inl e
         | Inr c \<Rightarrow> Inr \<lparr>civil = c\<lparr>foldf := f\<rparr>, tzinfo = Some tz\<rparr>))"

text \<open>
  \<^verbatim>\<open>v.astimezone(tz)\<close> for an aware \<open>v\<close> whose zone is \<open>mytz\<close>: nothing happens when
  \<open>tz\<close> is the very object \<open>v\<close> already has; otherwise \<open>v\<close> is moved to UTC by
  subtracting its own offset and \<open>tz\<close> converts from there.
\<close>

definition astimezone :: "tzinfo \<Rightarrow> datetime \<Rightarrow> tzinfo \<Rightarrow> error + datetime" where
  "astimezone mytz v tz =
     (if tz_id tz = tz_id mytz then Inr v
      else (case add_seconds (civil v) (- utcoffset mytz (civil v)) of
              Inl e \<Rightarrow> Inl e
            | Inr utc \<Rightarrow> fromutc tz utc))"

subsection \<open>Formatting\<close>

definition digit_char :: "nat \<Rightarrow> char" where
  "digit_char n = ''0123456789'' ! n"

function str_nat :: "nat \<Rightarrow> string" where
  "str_nat n = (if n < 10 then [digit_char n] else str_nat (n div 10) @ [digit_char (n mod 10)])"
  by pat_completeness auto
termination
  by (relation "measure id") auto

declare str_nat.simps [simp del]

text \<open>\<^verbatim>\<open>"%0wd" % n\<close> for a natural number: at least \<open>w\<close> digits, zeros on the left.\<close>

definition zero_pad :: "nat \<Rightarrow> nat \<Rightarrow> string" where
  "zero_pad w n = replicate (w - length (str_nat n)) (CHR ''0'') @ str_nat n"

definition format_time :: "civil \<Rightarrow> string" where
  "format_time c =
     zero_pad 2 (hour c) @ '':'' @ zero_pad 2 (minute c) @ '':'' @ zero_pad 2 (second c)
     @ (if microsecond c \<noteq> 0 then ''.'' @ zero_pad 6 (microsecond c) else [])"

definition format_offset :: "int \<Rightarrow> string" where
  "format_offset off =
     (let sign = (if off < 0 then ''-'' else ''+'');
          a = nat \<bar>off\<bar>;
          hh = a div 3600; mm = a mod 3600 div 60; ss = a mod 60
      in sign @ zero_pad 2 hh @ '':'' @ zero_pad 2 mm
         @ (if ss \<noteq> 0 then '':'' @ zero_pad 2 ss else []))"

definition isoformat :: "datetime \<Rightarrow> string" where
  "isoformat v =
     zero_pad 4 (year (civil v)) @ ''-'' @ zero_pad 2 (month (civil v)) @ ''-''
     @ zero_pad 2 (day (civil v)) @ ''T'' @ format_time (civil v)
     @ (case tzinfo v of None \<Rightarrow> [] | Some tz \<Rightarrow> format_offset (utcoffset tz (civil v)))"

subsection \<open>Values\<close>

text \<open>
  A Python float is carried around by this program and never computed with; the JSON
  encoder only asks whether it is finite.
\<close>

datatype pyfloat = Finite rat | PosInf | NegInf | NaN

text \<open>
  The values \<^verbatim>\<open>to_jsonable\<close> can meet. The store decodes a field to \<^verbatim>\<open>None\<close>, a bool, an
  int, a float, a string, bytes, a document reference, a \<^verbatim>\<open>DatetimeWithNanoseconds\<close>, a
  \<^verbatim>\<open>GeoPoint\<close>, a list or a dict with string keys; the cascade also tests for plain
  \<^verbatim>\<open>datetime\<close> objects and numpy scalars. A dict is its list of items in insertion order.
  \<^verbatim>\<open>NpFloating f\<close> is a numpy float whose \<^verbatim>\<open>float()\<close> is \<open>f\<close>.
\<close>

datatype pyval =
    PyNone
  | PyBool bool
  | PyInt int
  | PyFloat pyfloat
  | PyStr string
  | PyBytes string
  | DocumentReference string
  | DatetimeWithNanoseconds datetime nat
  | Datetime datetime
  | GeoPoint pyfloat pyfloat
  | PyList "pyval list"
  | PyDict "(string \<times> pyval) list"
  | NpInteger int
  | NpFloating pyfloat
  | NpBool bool

section \<open>The value normalizer\<close>

text \<open>
  \<^verbatim>\<open>to_jsonable\<close>, branch by branch in the order of the source. \<open>LOCAL_TZ\<close> is the zone
  object \<^verbatim>\<open>ZoneInfo("America/Santiago")\<close>; its table of offsets is data of the platform,
  so the zone is a parameter. The two comprehensions are the functions on lists and on
  items; an exception in an element leaves the comprehension.
\<close>

fun to_jsonable :: "tzinfo \<Rightarrow> pyval \<Rightarrow> error + pyval"
  and to_jsonable_list :: "tzinfo \<Rightarrow> pyval list \<Rightarrow> error + pyval list"
  and to_jsonable_items :: "tzinfo \<Rightarrow> (string \<times> pyval) list \<Rightarrow> error + (string \<times> pyval) list"
where
  "to_jsonable LOCAL_TZ (DatetimeWithNanoseconds v ns) =
     Inr (PyStr (isoformat (replace_tzinfo v LOCAL_TZ)))"
| "to_jsonable LOCAL_TZ (Datetime v) =
     (case (case tzinfo v of
              None \<Rightarrow> astimezone LOCAL_TZ (replace_tzinfo v LOCAL_TZ) LOCAL_TZ
            | Some mytz \<Rightarrow> astimezone mytz v LOCAL_TZ) of
        Inl e \<Rightarrow> Inl e
      | Inr r \<Rightarrow> Inr (PyStr (isoformat r)))"
| "to_jsonable LOCAL_TZ (GeoPoint latitude longitude) =
     Inr (PyDict [(''latitude'', PyFloat latitude), (''longitude'', PyFloat longitude)])"
| "to_jsonable LOCAL_TZ (PyList v) =
     (case to_jsonable_list LOCAL_TZ v of Inl e \<Rightarrow> Inl e | Inr xs \<Rightarrow> Inr (PyList xs))"
| "to_jsonable LOCAL_TZ (PyDict v) =
     (case to_jsonable_items LOCAL_TZ v of Inl e \<Rightarrow> Inl e | Inr kvs \<Rightarrow> Inr (PyDict kvs))"
| "to_jsonable LOCAL_TZ (NpInteger i) = Inr (PyInt i)"
| "to_jsonable LOCAL_TZ (NpFloating f) = Inr (PyFloat f)"
| "to_jsonable LOCAL_TZ (NpBool b) = Inr (PyBool b)"
| "to_jsonable LOCAL_TZ v = Inr v"
| "to_jsonable_list LOCAL_TZ [] = Inr []"
| "to_jsonable_list LOCAL_TZ (x # xs) =
     (case to_jsonable LOCAL_TZ x of
        Inl e \<Rightarrow> Inl e
      | Inr y \<Rightarrow> (case to_jsonable_list LOCAL_TZ xs of Inl e \<Rightarrow> Inl e | Inr ys \<Rightarrow> Inr (y # ys)))"
| "to_jsonable_items LOCAL_TZ [] = Inr []"
| "to_jsonable_items LOCAL_TZ ((k, val) # kvs) =
     (case to_jsonable LOCAL_TZ val of
        Inl e \<Rightarrow> Inl e
      | Inr y \<Rightarrow> (case to_jsonable_items LOCAL_TZ kvs of
                    Inl e \<Rightarrow> Inl e
                  | Inr ys \<Rightarrow> Inr ((k, y) # ys)))"

section \<open>Documents and the collection query\<close>

text \<open>\<^verbatim>\<open>data[k] = v\<close> on a dict: an existing key keeps its place, a new key goes last.\<close>

fun dict_setitem :: "(string \<times> pyval) list \<Rightarrow> string \<Rightarrow> pyval \<Rightarrow> (string \<times> pyval) list" where
  "dict_setitem [] k v = [(k, v)]"
| "dict_setitem ((k', v') # kvs) k v =
     (if k' = k then (k, v) # kvs else (k', v') # dict_setitem kvs k v)"

text \<open>
  A document snapshot: the identifier the store assigned and what \<^verbatim>\<open>to_dict()\<close> returns
  (\<^verbatim>\<open>None\<close> for a snapshot without data).
\<close>

record document_snapshot =
  doc_id :: string
  to_dict :: "(string \<times> pyval) list option"

text \<open>\<^verbatim>\<open>d or {}\<close>: the empty dict when \<open>d\<close> is \<^verbatim>\<open>None\<close> (or is empty itself).\<close>

definition or_empty :: "(string \<times> pyval) list option \<Rightarrow> (string \<times> pyval) list" where
  "or_empty d = (case d of None \<Rightarrow> [] | Some kvs \<Rightarrow> kvs)"

definition doc_to_dict :: "tzinfo \<Rightarrow> document_snapshot \<Rightarrow> error + (string \<times> pyval) list" where
  "doc_to_dict LOCAL_TZ doc =
     (case to_jsonable_items LOCAL_TZ (or_empty (to_dict doc)) of
        Inl e \<Rightarrow> Inl e
      | Inr data \<Rightarrow> Inr (dict_setitem data ''id'' (PyStr (doc_id doc))))"

record collection_cfg =
  name :: string
  filter_field :: string

definition COLLECTIONS :: "(string \<times> collection_cfg) list" where
  "COLLECTIONS =
     [(''campana'', \<lparr>name = ''campana'', filter_field = ''campanaID''\<rparr>),
      (''estacion'', \<lparr>name = ''Estacion'', filter_field = ''campanaID''\<rparr>)]"

text \<open>\<^verbatim>\<open>s.strip(chars)\<close>: drop the characters of \<open>chars\<close> from both ends.\<close>

definition strip :: "string \<Rightarrow> string \<Rightarrow> string" where
  "strip s chars =
     rev (dropWhile (\<lambda>c. c \<in> set chars) (rev (dropWhile (\<lambda>c. c \<in> set chars) s)))"

text \<open>
  The store is the external collaborator: \<open>db\<close> gives, for a collection name, its
  documents in the order a scan yields them. A query is a collection with one equality
  filter; \<^verbatim>\<open>stream()\<close> yields the documents whose field equals the string operand.
\<close>

record query =
  q_collection :: string
  q_field :: string
  q_value :: string

definition where_eq :: "string \<Rightarrow> string \<Rightarrow> string \<Rightarrow> query" where
  "where_eq col field val = \<lparr>q_collection = col, q_field = field, q_value = val\<rparr>"

definition matches :: "query \<Rightarrow> document_snapshot \<Rightarrow> bool" where
  "matches q doc =
     (case to_dict doc of
        None \<Rightarrow> False
      | Some d \<Rightarrow> map_of d (q_field q) = Some (PyStr (q_value q)))"

definition stream :: "(string \<Rightarrow> document_snapshot list) \<Rightarrow> query \<Rightarrow> document_snapshot list" where
  "stream db q = filter (matches q) (db (q_collection q))"

text \<open>
  Lines 83 and 84 of the source: the configuration lookup and the query it builds.
  \<open>DQ\<close> is the double-quote character.
\<close>

definition DQ :: char where
  "DQ = CHR 0x22"

definition col_ref :: "string \<Rightarrow> string \<Rightarrow> error + query" where
  "col_ref key campana_id =
     (case map_of COLLECTIONS key of
        None \<Rightarrow> Inl (KeyError key)
      | Some cfg \<Rightarrow> Inr (where_eq (name cfg) (filter_field cfg) (strip campana_id [DQ])))"

fun docs_to_dicts :: "tzinfo \<Rightarrow> document_snapshot list \<Rightarrow> error + (string \<times> pyval) list list" where
  "docs_to_dicts LOCAL_TZ [] = Inr []"
| "docs_to_dicts LOCAL_TZ (d # ds) =
     (case doc_to_dict LOCAL_TZ d of
        Inl e \<Rightarrow> Inl e
      | Inr x \<Rightarrow> (case docs_to_dicts LOCAL_TZ ds of Inl e \<Rightarrow> Inl e | Inr xs \<Rightarrow> Inr (x # xs)))"

definition fetch_collection ::
  "tzinfo \<Rightarrow> (string \<Rightarrow> document_snapshot list) \<Rightarrow> string \<Rightarrow> string
   \<Rightarrow> error + (string \<times> pyval) list list" where
  "fetch_collection LOCAL_TZ db key campana_id =
     (case col_ref key campana_id of
        Inl e \<Rightarrow> Inl e
      | Inr q \<Rightarrow> docs_to_dicts LOCAL_TZ (stream db q))"

section \<open>The HTTP handlers\<close>

text \<open>
  \<^verbatim>\<open>JSONResponse(content)\<close> encodes its content when it is built, with
  \<^verbatim>\<open>json.dumps(..., allow_nan=False)\<close>: a value of a kind the encoder does not know raises
  \<^verbatim>\<open>TypeError\<close>, a float that is not finite raises \<^verbatim>\<open>ValueError\<close>, the first one met in
  document order. The body of the response is modelled by the value that was encoded.
  The handlers only pass values that \<^verbatim>\<open>to_jsonable\<close> returned; these are never numpy
  scalars, so the encoder's treatment of numpy types plays no part.
\<close>

fun dumps_error :: "pyval \<Rightarrow> error option"
  and dumps_error_list :: "pyval list \<Rightarrow> error option"
  and dumps_error_items :: "(string \<times> pyval) list \<Rightarrow> error option"
where
  "dumps_error PyNone = None"
| "dumps_error (PyBool b) = None"
| "dumps_error (PyInt i) = None"
| "dumps_error (PyStr s) = None"
| "dumps_error (PyFloat (Finite x)) = None"
| "dumps_error (PyFloat f) = Some ValueError"
| "dumps_error (PyList xs) = dumps_error_list xs"
| "dumps_error (PyDict kvs) = dumps_error_items kvs"
| "dumps_error v = Some TypeError"
| "dumps_error_list [] = None"
| "dumps_error_list (x # xs) =
     (case dumps_error x of Some e \<Rightarrow> Some e | None \<Rightarrow> dumps_error_list xs)"
| "dumps_error_items [] = None"
| "dumps_error_items ((k, v) # kvs) =
     (case dumps_error v of Some e \<Rightarrow> Some e | None \<Rightarrow> dumps_error_items kvs)"

record response =
  status_code :: nat
  body :: pyval

definition JSONResponse :: "pyval \<Rightarrow> error + response" where
  "JSONResponse content =
     (case dumps_error content of
        Some e \<Rightarrow> Inl e
      | None \<Rightarrow> Inr \<lparr>status_code = 200, body = content\<rparr>)"

definition get_campana :: "tzinfo \<Rightarrow> (string \<Rightarrow> document_snapshot list) \<Rightarrow> string \<Rightarrow> error + response" where
  "get_campana LOCAL_TZ db campana_id =
     (case fetch_collection LOCAL_TZ db ''campana'' campana_id of
        Inl e \<Rightarrow> Inl e
      | Inr items \<Rightarrow>
          if items = []
          then Inl (HTTPException 404 ''Sin documentos en 'campana' para ese campana_id.'')
          else JSONResponse (PyList (map PyDict items)))"

definition get_estacion :: "tzinfo \<Rightarrow> (string \<Rightarrow> document_snapshot list) \<Rightarrow> string \<Rightarrow> error + response" where
  "get_estacion LOCAL_TZ db campana_id =
     (case fetch_collection LOCAL_TZ db ''estacion'' campana_id of
        Inl e \<Rightarrow> Inl e
      | Inr items \<Rightarrow>
          if items = []
          then Inl (HTTPException 404 ''Sin documentos en 'Estacion' para ese campana_id.'')
          else JSONResponse (PyList (map PyDict items)))"

section \<open>Predicates used to state the properties\<close>

subsection \<open>Well-formed date-times\<close>

text \<open>What the constructor of \<^verbatim>\<open>datetime\<close> checks: every value of the type has these bounds.\<close>

definition valid_civil :: "civil \<Rightarrow> bool" where
  "valid_civil c =
     (1 \<le> year c \<and> year c \<le> 9999 \<and> 1 \<le> month c \<and> month c \<le> 12
      \<and> 1 \<le> day c \<and> day c \<le> days_in_month (year c) (month c)
      \<and> hour c < 24 \<and> minute c < 60 \<and> second c < 60 \<and> microsecond c < 1000000
      \<and> foldf c \<le> 1)"

text \<open>What the library checks of every offset a zone returns: strictly less than a day.\<close>

definition valid_offset :: "int \<Rightarrow> bool" where
  "valid_offset off = (- 86400 < off \<and> off < 86400)"

subsection \<open>ISO 8601 strings\<close>

text \<open>
  The extended format of a date and time with a numeric UTC offset:
  \<^verbatim>\<open>YYYY-MM-DDTHH:MM:SS[.f...]+HH:MM\<close> with a real calendar date, a time of day and an
  offset of hours and minutes below 24 hours. ISO 8601 has no seconds in an offset.
\<close>

definition is_digit :: "char \<Rightarrow> bool" where
  "is_digit c = (c \<in> set ''0123456789'')"

definition digit_val :: "char \<Rightarrow> nat" where
  "digit_val c = of_char c - 48"

definition num_val :: "string \<Rightarrow> nat" where
  "num_val s = foldl (\<lambda>a c. 10 * a + digit_val c) 0 s"

definition field :: "nat \<Rightarrow> string \<Rightarrow> nat option" where
  "field w s = (if length s = w \<and> list_all is_digit s then Some (num_val s) else None)"

definition iso_date :: "string \<Rightarrow> bool" where
  "iso_date s =
     (case (field 4 (take 4 s), field 2 (take 2 (drop 5 s)), field 2 (drop 8 s)) of
        (Some y, Some m, Some d) \<Rightarrow>
          take 1 (drop 4 s) = ''-'' \<and> take 1 (drop 7 s) = ''-''
          \<and> 1 \<le> m \<and> m \<le> 12 \<and> 1 \<le> d \<and> d \<le> days_in_month y m
      | _ \<Rightarrow> False)"

definition iso_time :: "string \<Rightarrow> bool" where
  "iso_time s =
     (case (field 2 (take 2 s), field 2 (take 2 (drop 3 s)), field 2 (drop 6 s)) of
        (Some h, Some m, Some sec) \<Rightarrow>
          take 1 (drop 2 s) = '':'' \<and> take 1 (drop 5 s) = '':''
          \<and> h < 24 \<and> m < 60 \<and> sec < 60
      | _ \<Rightarrow> False)"

definition iso_fraction :: "string \<Rightarrow> bool" where
  "iso_fraction s = (s = [] \<or> (take 1 s = ''.'' \<and> 1 < length s \<and> list_all is_digit (drop 1 s)))"

definition is_sign :: "char \<Rightarrow> bool" where
  "is_sign c = (c = CHR ''+'' \<or> c = CHR ''-'')"

definition iso_offset :: "string \<Rightarrow> bool" where
  "iso_offset s =
     (case (field 2 (take 2 (drop 1 s)), field 2 (drop 4 s)) of
        (Some h, Some m) \<Rightarrow>
          list_all is_sign (take 1 s) \<and> take 1 (drop 3 s) = '':'' \<and> h < 24 \<and> m < 60
      | _ \<Rightarrow> False)"

definition is_iso8601 :: "string \<Rightarrow> bool" where
  "is_iso8601 s =
     (iso_date (take 10 s) \<and> take 1 (drop 10 s) = ''T'' \<and> iso_time (take 8 (drop 11 s))
      \<and> iso_fraction (takeWhile (\<lambda>c. \<not> is_sign c) (drop 19 s))
      \<and> iso_offset (dropWhile (\<lambda>c. \<not> is_sign c) (drop 19 s)))"

text \<open>The UTC offset an ISO string ends with, in seconds.\<close>

definition iso_utcoffset :: "string \<Rightarrow> int" where
  "iso_utcoffset s =
     (let off = dropWhile (\<lambda>c. \<not> is_sign c) (drop 19 s);
          secs = int (num_val (take 2 (drop 1 off))) * 3600
                 + int (num_val (take 2 (drop 4 off))) * 60
      in if take 1 off = ''-'' then - secs else secs)"

subsection \<open>Kinds of values\<close>

text \<open>The JSON types: string, number, boolean, null, list, mapping, at every depth.\<close>

fun json_typed :: "pyval \<Rightarrow> bool"
  and json_typed_list :: "pyval list \<Rightarrow> bool"
  and json_typed_items :: "(string \<times> pyval) list \<Rightarrow> bool"
where
  "json_typed PyNone = True"
| "json_typed (PyBool b) = True"
| "json_typed (PyInt i) = True"
| "json_typed (PyFloat f) = True"
| "json_typed (PyStr s) = True"
| "json_typed (PyList xs) = json_typed_list xs"
| "json_typed (PyDict kvs) = json_typed_items kvs"
| "json_typed v = False"
| "json_typed_list [] = True"
| "json_typed_list (x # xs) = (json_typed x \<and> json_typed_list xs)"
| "json_typed_items [] = True"
| "json_typed_items ((k, v) # kvs) = (json_typed v \<and> json_typed_items kvs)"

text \<open>
  The values the store decodes a document field to: no plain \<^verbatim>\<open>datetime\<close> (a timestamp
  always arrives as \<^verbatim>\<open>DatetimeWithNanoseconds\<close>) and no numpy scalar.
\<close>

fun field_value :: "pyval \<Rightarrow> bool"
  and field_value_list :: "pyval list \<Rightarrow> bool"
  and field_value_items :: "(string \<times> pyval) list \<Rightarrow> bool"
where
  "field_value (Datetime v) = False"
| "field_value (NpInteger i) = False"
| "field_value (NpFloating f) = False"
| "field_value (NpBool b) = False"
| "field_value (PyList xs) = field_value_list xs"
| "field_value (PyDict kvs) = field_value_items kvs"
| "field_value v = True"
| "field_value_list [] = True"
| "field_value_list (x # xs) = (field_value x \<and> field_value_list xs)"
| "field_value_items [] = True"
| "field_value_items ((k, v) # kvs) = (field_value v \<and> field_value_items kvs)"

text \<open>No bytes and no document reference at any depth.\<close>

fun opaque_free :: "pyval \<Rightarrow> bool"
  and opaque_free_list :: "pyval list \<Rightarrow> bool"
  and opaque_free_items :: "(string \<times> pyval) list \<Rightarrow> bool"
where
  "opaque_free (PyBytes b) = False"
| "opaque_free (DocumentReference p) = False"
| "opaque_free (PyList xs) = opaque_free_list xs"
| "opaque_free (PyDict kvs) = opaque_free_items kvs"
| "opaque_free v = True"
| "opaque_free_list [] = True"
| "opaque_free_list (x # xs) = (opaque_free x \<and> opaque_free_list xs)"
| "opaque_free_items [] = True"
| "opaque_free_items ((k, v) # kvs) = (opaque_free v \<and> opaque_free_items kvs)"

text \<open>The kinds the cascade of \<^verbatim>\<open>to_jsonable\<close> tests for.\<close>

fun recognized :: "pyval \<Rightarrow> bool" where
  "recognized (DatetimeWithNanoseconds v ns) = True"
| "recognized (Datetime v) = True"
| "recognized (GeoPoint la lo) = True"
| "recognized (PyList xs) = True"
| "recognized (PyDict kvs) = True"
| "recognized (NpInteger i) = True"
| "recognized (NpFloating f) = True"
| "recognized (NpBool b) = True"
| "recognized v = False"

text \<open>
  A reading shifted by \<open>delta\<close> seconds is representable when its day number lies between
  1 and \<open>MAXORDINAL\<close>, the day numbers of 0001-01-01 and 9999-12-31.
\<close>

definition day_number :: "civil \<Rightarrow> int \<Rightarrow> int" where
  "day_number c delta =
     int (ymd2ord (year c) (month c) (day c))
     + (int (hour c) * 3600 + int (minute c) * 60 + int (second c) + delta) div 86400"

definition representable :: "civil \<Rightarrow> int \<Rightarrow> bool" where
  "representable c delta = (1 \<le> day_number c delta \<and> day_number c delta \<le> MAXORDINAL)"

text \<open>
  The conversion of a plain \<^verbatim>\<open>datetime\<close> to the local zone leaves the years 1 to 9999:
  the value carries a zone object other than the local one, and either its reading in UTC
  or the local reading of that instant is not representable.
\<close>

definition conversion_overflows :: "tzinfo \<Rightarrow> datetime \<Rightarrow> bool" where
  "conversion_overflows LOCAL_TZ v =
     (case tzinfo v of
        None \<Rightarrow> False
      | Some mytz \<Rightarrow>
          tz_id mytz \<noteq> tz_id LOCAL_TZ
          \<and> (\<not> representable (civil v) (- utcoffset mytz (civil v))
               \<or> (case add_seconds (civil v) (- utcoffset mytz (civil v)) of
                     Inl e \<Rightarrow> False
                   | Inr utc \<Rightarrow> \<not> representable utc (fst (utc_info LOCAL_TZ utc)))))"

text \<open>Such a \<^verbatim>\<open>datetime\<close> occurs in the value, at any depth.\<close>

fun holds_overflow :: "tzinfo \<Rightarrow> pyval \<Rightarrow> bool"
  and holds_overflow_list :: "tzinfo \<Rightarrow> pyval list \<Rightarrow> bool"
  and holds_overflow_items :: "tzinfo \<Rightarrow> (string \<times> pyval) list \<Rightarrow> bool"
where
  "holds_overflow LOCAL_TZ (Datetime v) = conversion_overflows LOCAL_TZ v"
| "holds_overflow LOCAL_TZ (PyList xs) = holds_overflow_list LOCAL_TZ xs"
| "holds_overflow LOCAL_TZ (PyDict kvs) = holds_overflow_items LOCAL_TZ kvs"
| "holds_overflow LOCAL_TZ v = False"
| "holds_overflow_list LOCAL_TZ [] = False"
| "holds_overflow_list LOCAL_TZ (x # xs) =
     (holds_overflow LOCAL_TZ x \<or> holds_overflow_list LOCAL_TZ xs)"
| "holds_overflow_items LOCAL_TZ [] = False"
| "holds_overflow_items LOCAL_TZ ((k, v) # kvs) =
     (holds_overflow LOCAL_TZ v \<or> holds_overflow_items LOCAL_TZ kvs)"

section \<open>The claims in the words of the specification\<close>

text \<open>
  "Strips exactly one pair of enclosing double quotes, when present": the reading of the
  specification, to be compared with \<open>strip\<close> as the source calls it.
\<close>

definition strip_one_pair :: "string \<Rightarrow> string" where
  "strip_one_pair s =
     (if 2 \<le> length s \<and> hd s = DQ \<and> last s = DQ then butlast (tl s) else s)"

text \<open>
  "A mapping with the same keys as the source document, each value normalized, plus an
  injected id field holding the document identifier", for a document with the items
  \<open>src\<close> and a result \<open>r\<close>.
\<close>

definition normalized_document ::
  "tzinfo \<Rightarrow> string \<Rightarrow> (string \<times> pyval) list \<Rightarrow> (string \<times> pyval) list \<Rightarrow> bool" where
  "normalized_document LOCAL_TZ ident src r =
     (set (map fst r) = set (map fst src) \<union> {''id''}
      \<and> map_of r ''id'' = Some (PyStr ident)
      \<and> list_all (\<lambda>(k, v). map_sum id Some (to_jsonable LOCAL_TZ v) = Inr (map_of r k)) src)"

text \<open>The same, leaving out what it says of the value of a source field named \<^verbatim>\<open>id\<close>.\<close>

definition normalized_document_but_id ::
  "tzinfo \<Rightarrow> string \<Rightarrow> (string \<times> pyval) list \<Rightarrow> (string \<times> pyval) list \<Rightarrow> bool" where
  "normalized_document_but_id LOCAL_TZ ident src r =
     (set (map fst r) = set (map fst src) \<union> {''id''}
      \<and> map_of r ''id'' = Some (PyStr ident)
      \<and> list_all (\<lambda>(k, v). k = ''id''
                          \<or> map_sum id Some (to_jsonable LOCAL_TZ v) = Inr (map_of r k)) src)"

section \<open>Sample data\<close>

text \<open>
  Three zone objects. \<open>SANTIAGO\<close> has the key of the local zone and the offsets the zone
  database gives it for readings before 1910 (local mean time, 4:42:45 behind UTC), in
  2024 for January to March and October to December (3 hours behind) and for May to
  August (4 hours behind), and in December 9999 (3 hours behind); the rest of the table
  is not reproduced. \<open>SANTIAGO_COPY\<close> is a second object for the same key.
\<close>

definition UTC :: tzinfo where
  "UTC = TZ 0 ''UTC'' (\<lambda>c. 0) (\<lambda>c. (0, 0))"

definition santiago_offset :: "civil \<Rightarrow> int" where
  "santiago_offset c =
     (if year c < 1910 then - 16965
      else if 5 \<le> month c \<and> month c \<le> 8 then - 14400 else - 10800)"

definition SANTIAGO :: tzinfo where
  "SANTIAGO = TZ 1 ''America/Santiago'' santiago_offset (\<lambda>c. (santiago_offset c, 0))"

definition SANTIAGO_COPY :: tzinfo where
  "SANTIAGO_COPY = TZ 2 ''America/Santiago'' santiago_offset (\<lambda>c. (santiago_offset c, 0))"

definition reading :: "nat \<Rightarrow> nat \<Rightarrow> nat \<Rightarrow> nat \<Rightarrow> nat \<Rightarrow> nat \<Rightarrow> civil" where
  "reading y mo d h mi s =
     \<lparr>year = y, month = mo, day = d, hour = h, minute = mi, second = s,
      microsecond = 0, foldf = 0\<rparr>"

text \<open>
  Noon UTC on 1 January 2024, as the store returns a timestamp; a reading without a zone
  in July 2024 and one on 1 January 1900; midnight UTC on the first day the library can
  represent; the last hour it can represent, in the second object of the local zone.
\<close>

definition noon_utc :: datetime where
  "noon_utc = \<lparr>civil = reading 2024 1 1 12 0 0, tzinfo = Some UTC\<rparr>"

definition july_naive :: datetime where
  "july_naive = \<lparr>civil = reading 2024 7 1 12 30 5, tzinfo = None\<rparr>"

definition naive_1900 :: datetime where
  "naive_1900 = \<lparr>civil = reading 1900 1 1 0 0 0, tzinfo = None\<rparr>"

definition first_utc :: datetime where
  "first_utc = \<lparr>civil = reading 1 1 1 0 0 0, tzinfo = Some UTC\<rparr>"

definition last_hour_copy :: datetime where
  "last_hour_copy = \<lparr>civil = reading 9999 12 31 23 0 0, tzinfo = Some SANTIAGO_COPY\<rparr>"

text \<open>A small store: one campaign document with a timestamp, one with a bytes field.\<close>

definition doc_xyz :: document_snapshot where
  "doc_xyz =
     \<lparr>doc_id = ''d1'',
      to_dict = Some [(''campanaID'', PyStr ''XYZ''), (''nombre'', PyStr ''Test''),
                      (''creado'', DatetimeWithNanoseconds noon_utc 0)]\<rparr>"

definition doc_blob :: document_snapshot where
  "doc_blob =
     \<lparr>doc_id = ''d2'',
      to_dict = Some [(''campanaID'', PyStr ''B''), (''firma'', PyBytes ''ab'')]\<rparr>"

definition doc_with_id :: document_snapshot where
  "doc_with_id = \<lparr>doc_id = ''d3'', to_dict = Some [(''id'', PyInt 7)]\<rparr>"

definition sample_db :: "string \<Rightarrow> document_snapshot list" where
  "sample_db col = (if col = ''campana'' then [doc_xyz, doc_blob] else [])"

section \<open>The normalizer: structure of the result\<close>

text \<open>
  The only exception of the normalizer is the overflow of the date arithmetic, and only a
  plain \<^verbatim>\<open>datetime\<close> of another zone can raise it.
\<close>

lemma add_seconds_error: "add_seconds c d = Inl e \<Longrightarrow> e = OverflowError"
  by (auto simp: add_seconds_def Let_def split: if_splits prod.splits)

lemma fromutc_error: "fromutc tz c = Inl e \<Longrightarrow> e = OverflowError"
  by (auto simp: fromutc_def split: prod.splits sum.splits dest: add_seconds_error)

lemma astimezone_error:
  "astimezone mytz v tz = Inl e \<Longrightarrow> e = OverflowError \<and> tz_id mytz \<noteq> tz_id tz"
  by (auto simp: astimezone_def split: if_splits sum.splits dest: add_seconds_error fromutc_error)

text \<open>The date arithmetic overflows exactly when the shifted reading is not representable.\<close>

lemma add_seconds_overflow:
  "(add_seconds c d = Inl OverflowError) = (\<not> representable c d)"
  by (auto simp: add_seconds_def representable_def day_number_def Let_def split: prod.splits)

lemma fromutc_overflow:
  "(fromutc tz utc = Inl OverflowError) = (\<not> representable utc (fst (utc_info tz utc)))"
proof -
  obtain off f where u: "utc_info tz utc = (off, f)" by (cases "utc_info tz utc")
  show ?thesis
  proof (cases "add_seconds utc off")
    case (Inl e)
    then have "e = OverflowError" by (rule add_seconds_error)
    with Inl u add_seconds_overflow[of utc off] show ?thesis
      by (simp add: fromutc_def)
  next
    case (Inr c)
    with u add_seconds_overflow[of utc off] show ?thesis
      by (simp add: fromutc_def)
  qed
qed

lemma datetime_overflow:
  "(to_jsonable tz (Datetime v) = Inl OverflowError) = conversion_overflows tz v"
proof (cases "tzinfo v")
  case None
  then show ?thesis by (simp add: conversion_overflows_def astimezone_def replace_tzinfo_def)
next
  case (Some mytz)
  show ?thesis
  proof (cases "add_seconds (civil v) (- utcoffset mytz (civil v))")
    case (Inl e)
    then have e: "e = OverflowError" by (rule add_seconds_error)
    with Inl have "\<not> representable (civil v) (- utcoffset mytz (civil v))"
      using add_seconds_overflow[of "civil v" "- utcoffset mytz (civil v)"] by simp
    with Inl e Some show ?thesis
      by (auto simp: conversion_overflows_def astimezone_def)
  next
    case (Inr utc)
    then have "representable (civil v) (- utcoffset mytz (civil v))"
      using add_seconds_overflow[of "civil v" "- utcoffset mytz (civil v)"] by simp
    with Inr Some fromutc_overflow[of tz utc] show ?thesis
      by (auto simp: conversion_overflows_def astimezone_def split: sum.splits)
  qed
qed

lemma datetime_result:
  "\<not> conversion_overflows tz v \<Longrightarrow> \<exists>s. to_jsonable tz (Datetime v) = Inr (PyStr s)"
proof -
  assume n: "\<not> conversion_overflows tz v"
  show ?thesis
  proof (cases "to_jsonable tz (Datetime v)")
    case (Inl e)
    then have "e = OverflowError"
      by (auto simp: replace_tzinfo_def split: sum.splits option.splits dest: astimezone_error)
    with Inl n datetime_overflow[of tz v] show ?thesis by simp
  next
    case (Inr r)
    then show ?thesis by (auto split: sum.splits)
  qed
qed

lemma to_jsonable_errors:
  "(to_jsonable tz v = Inl e \<longrightarrow> e = OverflowError \<and> holds_overflow tz v)"
  "(to_jsonable_list tz xs = Inl e \<longrightarrow> e = OverflowError \<and> holds_overflow_list tz xs)"
  "(to_jsonable_items tz kvs = Inl e \<longrightarrow> e = OverflowError \<and> holds_overflow_items tz kvs)"
proof (induction tz v and tz xs and tz kvs
      rule: to_jsonable_to_jsonable_list_to_jsonable_items.induct)
  case (2 LOCAL_TZ v)
  show ?case
  proof
    assume f: "to_jsonable LOCAL_TZ (Datetime v) = Inl e"
    then have "e = OverflowError"
      by (auto simp: replace_tzinfo_def split: sum.splits option.splits dest: astimezone_error)
    with f datetime_overflow[of LOCAL_TZ v] show "e = OverflowError \<and> holds_overflow LOCAL_TZ (Datetime v)"
      by simp
  qed
qed (auto split: sum.splits)

lemma holds_overflow_fails:
  "(holds_overflow tz v \<longrightarrow> (\<exists>e. to_jsonable tz v = Inl e))"
  "(holds_overflow_list tz xs \<longrightarrow> (\<exists>e. to_jsonable_list tz xs = Inl e))"
  "(holds_overflow_items tz kvs \<longrightarrow> (\<exists>e. to_jsonable_items tz kvs = Inl e))"
proof (induction tz v and tz xs and tz kvs
      rule: to_jsonable_to_jsonable_list_to_jsonable_items.induct)
  case (2 LOCAL_TZ v)
  show ?case using datetime_overflow[of LOCAL_TZ v] by auto
qed (auto split: sum.splits)

lemma field_value_no_overflow:
  "(field_value v \<longrightarrow> \<not> holds_overflow tz v)"
  "(field_value_list xs \<longrightarrow> \<not> holds_overflow_list tz xs)"
  "(field_value_items kvs \<longrightarrow> \<not> holds_overflow_items tz kvs)"
  by (induction v and xs and kvs rule: field_value_field_value_list_field_value_items.induct)
     auto

text \<open>A result of the normalizer is left as it is by the normalizer.\<close>

lemma to_jsonable_fixed:
  "(to_jsonable tz v = Inr r \<longrightarrow> to_jsonable tz r = Inr r)"
  "(to_jsonable_list tz xs = Inr ys \<longrightarrow> to_jsonable_list tz ys = Inr ys)"
  "(to_jsonable_items tz kvs = Inr kys \<longrightarrow> to_jsonable_items tz kys = Inr kys)"
  by (induction tz v and tz xs and tz kvs arbitrary: r and ys and kys
      rule: to_jsonable_to_jsonable_list_to_jsonable_items.induct)
     (auto split: sum.splits option.splits)

lemma to_jsonable_json_typed:
  "(opaque_free v \<longrightarrow> to_jsonable tz v = Inr r \<longrightarrow> json_typed r)"
  "(opaque_free_list xs \<longrightarrow> to_jsonable_list tz xs = Inr ys \<longrightarrow> json_typed_list ys)"
  "(opaque_free_items kvs \<longrightarrow> to_jsonable_items tz kvs = Inr kys \<longrightarrow> json_typed_items kys)"
  by (induction tz v and tz xs and tz kvs arbitrary: r and ys and kys
      rule: to_jsonable_to_jsonable_list_to_jsonable_items.induct)
     (auto split: sum.splits option.splits)

lemma unrecognized_unchanged: "\<not> recognized v \<Longrightarrow> to_jsonable tz v = Inr v"
  by (cases v) auto

text \<open>The comprehension over the items keeps the keys, in order, and normalizes each value.\<close>

lemma items_keys:
  "to_jsonable_items tz kvs = Inr r \<Longrightarrow> map fst r = map fst kvs"
  by (induction kvs arbitrary: r) (auto split: sum.splits)

lemma items_values:
  "to_jsonable_items tz kvs = Inr r \<Longrightarrow> distinct (map fst kvs) \<Longrightarrow> (k, v) \<in> set kvs
   \<Longrightarrow> \<exists>v'. to_jsonable tz v = Inr v' \<and> map_of r k = Some v'"
proof (induction kvs arbitrary: r)
  case Nil
  then show ?case by simp
next
  case (Cons a kvs)
  obtain k0 v0 where a: "a = (k0, v0)" by (cases a)
  from Cons.prems(1) a obtain y ys where
    y: "to_jsonable tz v0 = Inr y" and ys: "to_jsonable_items tz kvs = Inr ys" and r: "r = (k0, y) # ys"
    by (auto split: sum.splits)
  show ?case
  proof (cases "(k, v) = (k0, v0)")
    case True
    with y r show ?thesis by simp
  next
    case False
    with Cons.prems(3) a have mem: "(k, v) \<in> set kvs" by auto
    from Cons.prems(2) a have d: "distinct (map fst kvs)" and nk: "k0 \<notin> fst ` set kvs" by auto
    from mem nk have "k \<noteq> k0" by force
    with Cons.IH[OF ys d mem] r show ?thesis by simp
  qed
qed

lemma map_of_dict_setitem: "map_of (dict_setitem r k v) = (map_of r)(k \<mapsto> v)"
  by (induction r k v rule: dict_setitem.induct) (auto simp: fun_eq_iff)

lemma keys_dict_setitem: "set (map fst (dict_setitem r k v)) = insert k (set (map fst r))"
  by (induction r k v rule: dict_setitem.induct) auto

section \<open>Stripping quotes\<close>

lemma rev_split_while:
  "xs = rev (dropWhile P (rev xs)) @ rev (takeWhile P (rev xs))"
proof -
  have "rev (takeWhile P (rev xs) @ dropWhile P (rev xs)) = rev (rev xs)"
    by (simp only: takeWhile_dropWhile_id)
  then show ?thesis by (simp only: rev_append rev_rev_ident)
qed

lemma all_same_replicate:
  "\<forall>x\<in>set xs. x = c \<Longrightarrow> \<exists>n. xs = replicate n c"
  by (rule exI[of _ "length xs"]) (simp add: replicate_length_same)

lemma takeWhile_same: "\<exists>n. takeWhile (\<lambda>x. x = c) xs = replicate n c"
  by (rule all_same_replicate) (auto dest: set_takeWhileD)

lemma strip_eq: "strip s [c] = rev (dropWhile (\<lambda>x. x = c) (rev (dropWhile (\<lambda>x. x = c) s)))"
  by (simp add: strip_def)

lemma strip_decompose:
  "\<exists>m n. s = replicate m c @ strip s [c] @ replicate n c"
proof -
  let ?P = "\<lambda>x. x = c"
  let ?t = "dropWhile ?P s"
  obtain m where a: "takeWhile ?P s = replicate m c"
    using takeWhile_same[of c s] by (elim exE)
  obtain n where b0: "takeWhile ?P (rev ?t) = replicate n c"
    using takeWhile_same[of c "rev ?t"] by (elim exE)
  then have b: "rev (takeWhile ?P (rev ?t)) = replicate n c"
    by simp
  have "?t = rev (dropWhile ?P (rev ?t)) @ rev (takeWhile ?P (rev ?t))"
    by (rule rev_split_while)
  then have t: "?t = strip s [c] @ replicate n c"
    by (simp only: b strip_eq)
  have "takeWhile ?P s @ ?t = s" by (rule takeWhile_dropWhile_id)
  then have "replicate m c @ ?t = s" by (simp only: a)
  moreover have "replicate m c @ (strip s [c] @ replicate n c) = replicate m c @ ?t"
    by (simp only: t[symmetric])
  ultimately have "s = replicate m c @ strip s [c] @ replicate n c" by simp
  then show ?thesis by (intro exI[of _ m] exI[of _ n])
qed

lemma strip_ends:
  "strip s [c] = [] \<or> (hd (strip s [c]) \<noteq> c \<and> last (strip s [c]) \<noteq> c)"
proof (cases "strip s [c] = []")
  case True
  then show ?thesis by simp
next
  case False
  let ?P = "\<lambda>x. x = c"
  let ?t = "dropWhile ?P s"
  let ?u = "dropWhile ?P (rev ?t)"
  have r: "strip s [c] = rev ?u" by (rule strip_eq)
  with False have u: "?u \<noteq> []" by simp
  then have "\<not> ?P (hd ?u)" by (rule hd_dropWhile)
  then have l: "last (strip s [c]) \<noteq> c" using u r by (simp add: last_rev)
  have tne: "?t \<noteq> []"
  proof
    assume e: "?t = []"
    have "?u = []" by (simp only: e rev.simps dropWhile.simps)
    with u show False by simp
  qed
  then have ht: "\<not> ?P (hd ?t)" by (rule hd_dropWhile)
  have "?t = rev ?u @ rev (takeWhile ?P (rev ?t))" by (rule rev_split_while)
  then have "hd ?t = hd (rev ?u @ rev (takeWhile ?P (rev ?t)))" by simp
  also have "\<dots> = hd (rev ?u)" using u by simp
  finally have "hd ?t = hd (strip s [c])" using r by simp
  with ht have "hd (strip s [c]) \<noteq> c" by simp
  with l show ?thesis by simp
qed

lemma col_ref_value:
  "col_ref key cid = Inr q \<Longrightarrow> q_value q = strip cid [DQ]"
  by (auto simp: col_ref_def where_eq_def split: option.splits)

section \<open>The ISO format of a date-time\<close>

lemma digit_cases:
  "k < 10 \<Longrightarrow> k = 0 \<or> k = 1 \<or> k = 2 \<or> k = 3 \<or> k = 4 \<or> k = 5 \<or> k = 6 \<or> k = 7 \<or> k = 8 \<or> k = (9::nat)"
  by arith

lemma digit_char_props:
  assumes "k < 10"
  shows "is_digit (digit_char k)" and "digit_val (digit_char k) = k"
    and "\<not> is_sign (digit_char k)"
  using digit_cases[OF assms]
  by (auto simp: digit_char_def is_digit_def digit_val_def is_sign_def)

lemma zero_pad_Suc:
  assumes "1 \<le> w"
  shows "zero_pad (Suc w) n = zero_pad w (n div 10) @ [digit_char (n mod 10)]"
proof (cases "n < 10")
  case True
  from assms obtain w' where w: "w = Suc w'" by (cases w) auto
  have z: "str_nat 0 = ''0''" by (simp add: str_nat.simps digit_char_def)
  have "replicate w' (CHR ''0'') @ ''0'' = replicate (Suc w') (CHR ''0'')"
    by (simp only: replicate_append_same) simp
  with True w show ?thesis
    by (simp add: zero_pad_def str_nat.simps[of n] z replicate_append_same)
next
  case False
  then show ?thesis
    by (simp add: zero_pad_def str_nat.simps[of n] Suc_diff_le)
qed

lemma zero_pad_1: "n < 10 \<Longrightarrow> zero_pad 1 n = [digit_char n]"
  by (simp add: zero_pad_def str_nat.simps[of n])

lemma zero_pad_step: "1 \<le> w \<Longrightarrow> zero_pad (w + 1) n = zero_pad w (n div 10) @ [digit_char (n mod 10)]"
  using zero_pad_Suc[of w n] by simp

lemma zero_pad_2: "n < 100 \<Longrightarrow> zero_pad 2 n = [digit_char (n div 10), digit_char (n mod 10)]"
proof -
  assume n: "n < 100"
  have "zero_pad (1 + 1) n = zero_pad 1 (n div 10) @ [digit_char (n mod 10)]"
    by (rule zero_pad_step) simp
  moreover have "zero_pad 1 (n div 10) = [digit_char (n div 10)]"
    using n by (intro zero_pad_1) simp
  ultimately show ?thesis by (simp add: numeral_2_eq_2)
qed

lemma zero_pad_4:
  assumes n: "n < 10000"
  shows "zero_pad 4 n =
     [digit_char (n div 1000), digit_char (n div 100 mod 10), digit_char (n div 10 mod 10),
      digit_char (n mod 10)]"
proof -
  have a: "zero_pad 4 n = zero_pad 3 (n div 10) @ [digit_char (n mod 10)]"
    using zero_pad_step[of 3 n] by simp
  have b: "zero_pad 3 (n div 10) = zero_pad 2 (n div 10 div 10) @ [digit_char (n div 10 mod 10)]"
    using zero_pad_step[of 2 "n div 10"] by simp
  have c: "zero_pad 2 (n div 10 div 10)
      = [digit_char (n div 10 div 10 div 10), digit_char (n div 10 div 10 mod 10)]"
    using n by (intro zero_pad_2) simp
  have d: "n div 10 div 10 = n div 100" "n div 10 div 10 div 10 = n div 1000"
    by (simp_all add: div_mult2_eq[symmetric])
  show ?thesis using a b c d by simp
qed

lemma num_val_snoc: "num_val (xs @ [c]) = 10 * num_val xs + digit_val c"
  by (simp add: num_val_def)

lemma num_val_str_nat: "num_val (str_nat n) = n"
proof (induction n rule: str_nat.induct)
  case (1 n)
  show ?case
  proof (cases "n < 10")
    case True
    then show ?thesis
      by (simp add: str_nat.simps[of n] num_val_def digit_char_props)
  next
    case False
    have "n mod 10 < 10" by simp
    with False 1 show ?thesis
      by (simp add: str_nat.simps[of n] num_val_snoc digit_char_props)
  qed
qed

lemma digits_str_nat: "list_all is_digit (str_nat n)"
proof (induction n rule: str_nat.induct)
  case (1 n)
  show ?case
  proof (cases "n < 10")
    case True
    then show ?thesis
      by (simp add: str_nat.simps[of n] digit_char_props)
  next
    case False
    have "n mod 10 < 10" by simp
    with False 1 show ?thesis
      by (simp add: str_nat.simps[of n] digit_char_props)
  qed
qed

lemma num_val_zeros: "num_val (replicate k (CHR ''0'') @ s) = num_val s"
  by (induction k) (simp_all add: num_val_def digit_val_def)

lemma num_val_zero_pad: "num_val (zero_pad w n) = n"
  by (simp add: zero_pad_def num_val_zeros num_val_str_nat)

lemma digits_zeros: "list_all is_digit (replicate k (CHR ''0''))"
  by (induction k) (simp_all add: is_digit_def)

lemma digits_zero_pad: "list_all is_digit (zero_pad w n)"
  by (simp add: zero_pad_def digits_str_nat digits_zeros)

lemma field_zero_pad: "length (zero_pad w n) = w \<Longrightarrow> field w (zero_pad w n) = Some n"
  by (simp add: field_def digits_zero_pad num_val_zero_pad)

lemma len_zero_pad_2: "n < 100 \<Longrightarrow> length (zero_pad 2 n) = 2"
  by (simp add: zero_pad_2)

lemma len_zero_pad_4: "n < 10000 \<Longrightarrow> length (zero_pad 4 n) = 4"
  by (simp add: zero_pad_4)

lemma iso_time_format:
  assumes "valid_civil c"
  shows "iso_time (zero_pad 2 (hour c) @ '':'' @ zero_pad 2 (minute c) @ '':'' @ zero_pad 2 (second c))"
proof -
  from assms have h: "hour c < 24" and m: "minute c < 60" and s: "second c < 60"
    by (auto simp: valid_civil_def)
  then have h': "hour c < 100" and m': "minute c < 100" and s': "second c < 100" by simp_all
  show ?thesis
    using h m s len_zero_pad_2[OF h'] len_zero_pad_2[OF m'] len_zero_pad_2[OF s']
    by (simp add: iso_time_def field_zero_pad)
qed

lemma zero_pad_6:
  assumes n: "n < 1000000"
  shows "\<exists>a b c d e f. zero_pad 6 n = [a, b, c, d, e, f]
     \<and> is_digit a \<and> is_digit b \<and> is_digit c \<and> is_digit d \<and> is_digit e \<and> is_digit f"
proof -
  have a: "zero_pad 6 n = zero_pad 5 (n div 10) @ [digit_char (n mod 10)]"
    using zero_pad_step[of 5 n] by simp
  have b: "zero_pad 5 (n div 10) = zero_pad 4 (n div 10 div 10) @ [digit_char (n div 10 mod 10)]"
    using zero_pad_step[of 4 "n div 10"] by simp
  have "n div 10 div 10 < 10000" using n by simp
  note c = zero_pad_4[OF this]
  have "n div 10 div 10 div 1000 < 10" using n by simp
  then show ?thesis unfolding a b c
    by (simp add: digit_char_props)
qed

lemma iso_date_format:
  assumes "valid_civil c"
  shows "iso_date (zero_pad 4 (year c) @ ''-'' @ zero_pad 2 (month c) @ ''-'' @ zero_pad 2 (day c))"
proof -
  from assms have y: "year c < 10000" and m: "month c < 100" "1 \<le> month c" "month c \<le> 12"
    and d: "1 \<le> day c" "day c \<le> days_in_month (year c) (month c)"
    by (auto simp: valid_civil_def)
  have "days_in_month (year c) (month c) \<le> 31"
    using m(3) digit_cases[of "month c"]
    by (cases "month c = 10 \<or> month c = 11 \<or> month c = 12")
       (auto simp: days_in_month_def DAYS_IN_MONTH_def)
  with d have d': "day c < 100" by simp
  show ?thesis
    using m d len_zero_pad_4[OF y] len_zero_pad_2[OF m(1)] len_zero_pad_2[OF d']
    by (simp add: iso_date_def field_zero_pad)
qed

lemma digit_not_sign: "is_digit c \<Longrightarrow> \<not> is_sign c"
  by (auto simp: is_digit_def is_sign_def)

lemma offset_parts:
  assumes "valid_offset off"
  shows "nat \<bar>off\<bar> div 3600 < 24" and "nat \<bar>off\<bar> mod 3600 div 60 < 60" and "nat \<bar>off\<bar> mod 60 < 60"
    and "int (nat \<bar>off\<bar> div 3600) * 3600 + int (nat \<bar>off\<bar> mod 3600 div 60) * 60
         + int (nat \<bar>off\<bar> mod 60) = \<bar>off\<bar>"
proof -
  let ?a = "nat \<bar>off\<bar>"
  from assms have a: "?a < 86400" by (auto simp: valid_offset_def)
  then show "?a div 3600 < 24" by simp
  show "?a mod 3600 div 60 < 60" by simp
  show "?a mod 60 < 60" by simp
  have "?a mod 3600 = 60 * (?a mod 3600 div 60) + ?a mod 3600 mod 60" by simp
  moreover have "?a mod 3600 mod 60 = ?a mod 60" by (simp add: mod_mod_cancel)
  moreover have "?a = 3600 * (?a div 3600) + ?a mod 3600" by simp
  ultimately have "?a = 3600 * (?a div 3600) + 60 * (?a mod 3600 div 60) + ?a mod 60" by linarith
  then have "int ?a = int (3600 * (?a div 3600) + 60 * (?a mod 3600 div 60) + ?a mod 60)" by simp
  then show "int (?a div 3600) * 3600 + int (?a mod 3600 div 60) * 60 + int (?a mod 60) = \<bar>off\<bar>"
    by simp
qed

lemma zero_pad_2_ex:
  assumes "n < 100"
  shows "\<exists>a b. zero_pad 2 n = [a, b] \<and> field 2 [a, b] = Some n \<and> num_val [a, b] = n"
proof -
  have "zero_pad 2 n = [digit_char (n div 10), digit_char (n mod 10)]"
    using assms by (rule zero_pad_2)
  moreover have "field 2 (zero_pad 2 n) = Some n"
    using assms by (simp add: field_zero_pad len_zero_pad_2)
  moreover have "num_val (zero_pad 2 n) = n" by (rule num_val_zero_pad)
  ultimately show ?thesis by metis
qed

lemma offset_shape:
  assumes "hh < 24" and "mm < 60" and "sg = CHR ''+'' \<or> sg = CHR ''-''"
  defines "s \<equiv> [sg] @ zero_pad 2 hh @ '':'' @ zero_pad 2 mm"
  shows "iso_offset s"
    and "int (num_val (take 2 (drop 1 s))) * 3600 + int (num_val (take 2 (drop 4 s))) * 60
         = int hh * 3600 + int mm * 60"
    and "take 1 s = [sg]"
proof -
  from assms(1) have "hh < 100" by simp
  from zero_pad_2_ex[OF this] obtain h1 h2 where
    h: "zero_pad 2 hh = [h1, h2]" "field 2 [h1, h2] = Some hh" "num_val [h1, h2] = hh" by blast
  from assms(2) have "mm < 100" by simp
  from zero_pad_2_ex[OF this] obtain m1 m2 where
    m: "zero_pad 2 mm = [m1, m2]" "field 2 [m1, m2] = Some mm" "num_val [m1, m2] = mm" by blast
  show "iso_offset s"
    using assms(1,2,3) by (auto simp: s_def h m iso_offset_def is_sign_def)
  show "int (num_val (take 2 (drop 1 s))) * 3600 + int (num_val (take 2 (drop 4 s))) * 60
         = int hh * 3600 + int mm * 60"
    by (simp add: s_def h m)
  show "take 1 s = [sg]" by (simp add: s_def)
qed

lemma whole_minutes:
  assumes "off mod 60 = 0"
  shows "nat \<bar>off\<bar> mod 60 = 0"
proof -
  from assms have "60 dvd off" by presburger
  then have "(60::nat) dvd nat \<bar>off\<bar>" by (simp add: dvd_nat_abs_iff)
  then show ?thesis by presburger
qed

lemma format_offset_eq:
  assumes "off mod 60 = 0"
  shows "format_offset off =
     [if off < 0 then CHR ''-'' else CHR ''+''] @ zero_pad 2 (nat \<bar>off\<bar> div 3600) @ '':''
     @ zero_pad 2 (nat \<bar>off\<bar> mod 3600 div 60)"
  using whole_minutes[OF assms] by (simp add: format_offset_def Let_def)

lemma iso_offset_format:
  assumes "valid_offset off" and "off mod 60 = 0"
  shows "iso_offset (format_offset off)"
  unfolding format_offset_eq[OF assms(2)]
  by (rule offset_shape(1)[OF offset_parts(1,2)[OF assms(1)]]) simp

lemma parse_offset_format:
  assumes "valid_offset off" and "off mod 60 = 0"
  shows "(let o' = format_offset off;
              secs = int (num_val (take 2 (drop 1 o'))) * 3600
                     + int (num_val (take 2 (drop 4 o'))) * 60
          in if take 1 o' = ''-'' then - secs else secs) = off"
proof -
  let ?sg = "if off < 0 then CHR ''-'' else CHR ''+''"
  have sg: "?sg = CHR ''+'' \<or> ?sg = CHR ''-''" by simp
  note p = offset_parts[OF assms(1)]
  note sh = offset_shape(2,3)[OF p(1,2) sg, folded format_offset_eq[OF assms(2)]]
  have z: "int (nat \<bar>off\<bar> mod 60) = 0" using whole_minutes[OF assms(2)] by simp
  show ?thesis
    unfolding Let_def sh using p(4) z by (cases "off < 0") simp_all
qed

lemma format_offset_cons: "\<exists>sg rest. format_offset off = sg # rest \<and> is_sign sg"
  by (simp add: format_offset_def Let_def is_sign_def)

lemma fraction_format:
  assumes "us < 1000000"
  shows "iso_fraction (if us \<noteq> 0 then ''.'' @ zero_pad 6 us else [])"
    and "\<forall>x\<in>set (if us \<noteq> 0 then ''.'' @ zero_pad 6 us else []). \<not> is_sign x"
proof -
  from zero_pad_6[OF assms] obtain a b c d e f where
    z: "zero_pad 6 us = [a, b, c, d, e, f]"
    and dg: "is_digit a" "is_digit b" "is_digit c" "is_digit d" "is_digit e" "is_digit f"
    by blast
  show "iso_fraction (if us \<noteq> 0 then ''.'' @ zero_pad 6 us else [])"
    using z dg by (simp add: iso_fraction_def)
  show "\<forall>x\<in>set (if us \<noteq> 0 then ''.'' @ zero_pad 6 us else []). \<not> is_sign x"
    using z dg by (auto simp: digit_not_sign) (simp add: is_sign_def)
qed

lemma split_at_sign:
  assumes "\<forall>x\<in>set f. \<not> is_sign x" and "o' = sg # rest" and "is_sign sg"
  shows "takeWhile (\<lambda>c. \<not> is_sign c) (f @ o') = f"
    and "dropWhile (\<lambda>c. \<not> is_sign c) (f @ o') = o'"
  using assms by (simp_all add: takeWhile_append2 dropWhile_append2)

lemma iso_assemble:
  assumes "length D = 10" and "length Tm = 8" and "iso_date D" and "iso_time Tm"
    and "iso_fraction F" and "\<forall>x\<in>set F. \<not> is_sign x"
    and "O' = sg # rest" and "is_sign sg" and "iso_offset O'"
  shows "is_iso8601 (D @ ''T'' @ Tm @ F @ O')"
    and "dropWhile (\<lambda>c. \<not> is_sign c) (drop 19 (D @ ''T'' @ Tm @ F @ O')) = O'"
proof -
  have d: "drop 19 (D @ ''T'' @ Tm @ F @ O') = F @ O'"
    using assms(1,2) by simp
  have t: "take 10 (D @ ''T'' @ Tm @ F @ O') = D" 
    "take 1 (drop 10 (D @ ''T'' @ Tm @ F @ O')) = ''T''"
    "take 8 (drop 11 (D @ ''T'' @ Tm @ F @ O')) = Tm"
    using assms(1,2) by simp_all
  note sp = split_at_sign[OF assms(6,7,8)]
  show "is_iso8601 (D @ ''T'' @ Tm @ F @ O')"
    unfolding is_iso8601_def d t sp using assms(3,4,5,9) by simp
  show "dropWhile (\<lambda>c. \<not> is_sign c) (drop 19 (D @ ''T'' @ Tm @ F @ O')) = O'"
    unfolding d sp ..
qed

lemma isoformat_eq:
  "isoformat \<lparr>civil = c, tzinfo = Some tz\<rparr> =
     (zero_pad 4 (year c) @ ''-'' @ zero_pad 2 (month c) @ ''-'' @ zero_pad 2 (day c))
     @ ''T''
     @ (zero_pad 2 (hour c) @ '':'' @ zero_pad 2 (minute c) @ '':'' @ zero_pad 2 (second c))
     @ (if microsecond c \<noteq> 0 then ''.'' @ zero_pad 6 (microsecond c) else [])
     @ format_offset (utcoffset tz c)"
  by (simp add: isoformat_def format_time_def)

lemma days_in_month_le:
  assumes "1 \<le> m" and "m \<le> 12"
  shows "days_in_month y m \<le> 31"
  using assms digit_cases[of m]
  by (cases "m = 10 \<or> m = 11 \<or> m = 12") (auto simp: days_in_month_def DAYS_IN_MONTH_def)

lemma isoformat_local:
  assumes "valid_civil c" and "valid_offset (utcoffset tz c)" and "utcoffset tz c mod 60 = 0"
  shows "is_iso8601 (isoformat \<lparr>civil = c, tzinfo = Some tz\<rparr>)"
    and "iso_utcoffset (isoformat \<lparr>civil = c, tzinfo = Some tz\<rparr>) = utcoffset tz c"
proof -
  let ?D = "zero_pad 4 (year c) @ ''-'' @ zero_pad 2 (month c) @ ''-'' @ zero_pad 2 (day c)"
  let ?T = "zero_pad 2 (hour c) @ '':'' @ zero_pad 2 (minute c) @ '':'' @ zero_pad 2 (second c)"
  let ?F = "if microsecond c \<noteq> 0 then ''.'' @ zero_pad 6 (microsecond c) else []"
  let ?O = "format_offset (utcoffset tz c)"
  from assms(1) have b: "year c < 10000" "month c < 100" "day c < 100"
    "hour c < 100" "minute c < 100" "second c < 100" "microsecond c < 1000000"
    using days_in_month_le[of "month c" "year c"] by (auto simp: valid_civil_def)
  have lD: "length ?D = 10"
    using b by (simp add: len_zero_pad_4 len_zero_pad_2)
  have lT: "length ?T = 8"
    using b by (simp add: len_zero_pad_2)
  obtain sg rest where o: "?O = sg # rest" "is_sign sg"
    using format_offset_cons by blast
  note fr = fraction_format[OF b(7)]
  note asm = iso_assemble[OF lD lT iso_date_format[OF assms(1)] iso_time_format[OF assms(1)]
      fr o iso_offset_format[OF assms(2,3)]]
  show "is_iso8601 (isoformat \<lparr>civil = c, tzinfo = Some tz\<rparr>)"
    unfolding isoformat_eq by (rule asm(1))
  show "iso_utcoffset (isoformat \<lparr>civil = c, tzinfo = Some tz\<rparr>) = utcoffset tz c"
    unfolding isoformat_eq iso_utcoffset_def asm(2)
    by (rule parse_offset_format[OF assms(2,3)])
qed

text \<open>
  The check at work: it accepts a leap day with a fraction and rejects a string without
  offset, a day that does not exist, an offset without colon and an offset with seconds.
\<close>

lemma is_iso8601_samples:
  "is_iso8601 ''2024-02-29T12:30:05.000120-04:00''"
  "\<not> is_iso8601 ''2024-07-01T12:30:05''"
  "\<not> is_iso8601 ''2023-02-29T12:30:05-04:00''"
  "\<not> is_iso8601 ''2024-07-01T12:30:05-0400''"
  "\<not> is_iso8601 ''2024-07-01T12:30:05-04:42:45''"
  by (simp_all add: is_iso8601_def iso_date_def iso_time_def iso_fraction_def iso_offset_def
      field_def is_digit_def is_sign_def num_val_def digit_val_def days_in_month_def
      DAYS_IN_MONTH_def is_leap_def)

section \<open>Evaluation of the sample data\<close>

lemma noon_utc_iso:
  "isoformat (replace_tzinfo noon_utc SANTIAGO) = ''2024-01-01T12:00:00-03:00''"
  by (simp add: noon_utc_def reading_def SANTIAGO_def santiago_offset_def isoformat_def
      replace_tzinfo_def format_time_def format_offset_def zero_pad_def str_nat.simps
      digit_char_def)

lemma noon_utc_native:
  "to_jsonable SANTIAGO (DatetimeWithNanoseconds noon_utc 0)
     = Inr (PyStr ''2024-01-01T12:00:00-03:00'')"
  by (simp add: noon_utc_iso)

lemma doc_xyz_dict:
  "doc_to_dict SANTIAGO doc_xyz
     = Inr [(''campanaID'', PyStr ''XYZ''), (''nombre'', PyStr ''Test''),
            (''creado'', PyStr ''2024-01-01T12:00:00-03:00''), (''id'', PyStr ''d1'')]"
  by (simp add: doc_to_dict_def or_empty_def doc_xyz_def noon_utc_iso)

lemma sample_stream:
  "stream sample_db (where_eq ''campana'' ''campanaID'' ''XYZ'') = [doc_xyz]"
  "stream sample_db (where_eq ''campana'' ''campanaID'' ''B'') = [doc_blob]"
  "stream sample_db (where_eq ''campana'' ''campanaID'' ''nada'') = []"
  "stream sample_db (where_eq ''Estacion'' ''campanaID'' ''nada'') = []"
  by (simp_all add: stream_def where_eq_def matches_def sample_db_def doc_xyz_def doc_blob_def)

section \<open>Timestamps\<close>

text \<open>
  C1. The claim: a database-native timestamp without a zone is read as local time, and
  one that carries a zone is converted to the local zone, the instant preserved. The
  branch of the source replaces the zone in both cases: the calendar fields of the
  result are those of the input, whatever zone it had. For noon UTC on 1 January 2024,
  which is how the store hands back that instant, the result reads 12:00 at three hours
  behind UTC, an instant three hours later; the branch for a plain \<^verbatim>\<open>datetime\<close> converts
  the same reading to 09:00.
\<close>

theorem native_timestamp_keeps_wall_clock:
  "to_jsonable LOCAL_TZ (DatetimeWithNanoseconds v ns)
     = Inr (PyStr (isoformat \<lparr>civil = civil v, tzinfo = Some LOCAL_TZ\<rparr>))
   \<and> to_jsonable SANTIAGO (DatetimeWithNanoseconds noon_utc 0)
       = Inr (PyStr ''2024-01-01T12:00:00-03:00'')
   \<and> to_jsonable SANTIAGO (Datetime noon_utc) = Inr (PyStr ''2024-01-01T09:00:00-03:00'')"
proof -
  have "replace_tzinfo v LOCAL_TZ = \<lparr>civil = civil v, tzinfo = Some LOCAL_TZ\<rparr>"
    by (simp add: replace_tzinfo_def)
  then have "to_jsonable LOCAL_TZ (DatetimeWithNanoseconds v ns)
     = Inr (PyStr (isoformat \<lparr>civil = civil v, tzinfo = Some LOCAL_TZ\<rparr>))"
    by simp
  moreover have "to_jsonable SANTIAGO (DatetimeWithNanoseconds noon_utc 0)
       = Inr (PyStr ''2024-01-01T12:00:00-03:00'')"
    by (rule noon_utc_native)
  moreover have "to_jsonable SANTIAGO (Datetime noon_utc)
       = Inr (PyStr ''2024-01-01T09:00:00-03:00'')"
    by (simp add: noon_utc_def reading_def UTC_def SANTIAGO_def santiago_offset_def
        astimezone_def add_seconds_def fromutc_def ymd2ord_def ord2ymd_def
        days_before_year_def days_before_month_def DAYS_BEFORE_MONTH_def DAYS_IN_MONTH_def
        is_leap_def MAXORDINAL_def Let_def isoformat_def format_time_def format_offset_def
        zero_pad_def str_nat.simps digit_char_def)
  ultimately show ?thesis by blast
qed

text \<open>
  C6, as stated, fails: for a reading without a zone on 1 January 1900, when the local
  zone ran on local mean time, both timestamp branches return a string whose offset has
  seconds, and that is not an ISO 8601 string.
\<close>

theorem local_mean_time_not_iso:
  "to_jsonable SANTIAGO (Datetime naive_1900) = Inr (PyStr ''1900-01-01T00:00:00-04:42:45'')
   \<and> to_jsonable SANTIAGO (DatetimeWithNanoseconds naive_1900 0)
       = Inr (PyStr ''1900-01-01T00:00:00-04:42:45'')
   \<and> \<not> is_iso8601 ''1900-01-01T00:00:00-04:42:45''"
proof -
  have "isoformat (replace_tzinfo naive_1900 SANTIAGO) = ''1900-01-01T00:00:00-04:42:45''"
    by (simp add: naive_1900_def reading_def SANTIAGO_def santiago_offset_def isoformat_def
        replace_tzinfo_def format_time_def format_offset_def zero_pad_def str_nat.simps
        digit_char_def)
  moreover have "tzinfo naive_1900 = None" by (simp add: naive_1900_def)
  moreover have "\<not> is_iso8601 ''1900-01-01T00:00:00-04:42:45''"
    by (simp add: is_iso8601_def iso_date_def iso_time_def iso_fraction_def iso_offset_def
        field_def is_digit_def is_sign_def num_val_def digit_val_def days_in_month_def
        DAYS_IN_MONTH_def is_leap_def)
  ultimately show ?thesis by (simp add: astimezone_def)
qed

text \<open>
  C6, amended. For a timestamp without a zone, database-native or plain, at a reading
  where the offset of the local zone is a whole number of minutes, the normalizer returns
  a valid ISO 8601 string whose UTC offset is the offset of the local zone at that
  reading. The other hypotheses are what the types guarantee: the fields of a
  \<^verbatim>\<open>datetime\<close> are in range and the offset of a zone is less than a day.
\<close>

theorem naive_timestamp_local_offset:
  assumes "valid_civil (civil v)" and "tzinfo v = None"
    and "valid_offset (utcoffset LOCAL_TZ (civil v))"
    and "utcoffset LOCAL_TZ (civil v) mod 60 = 0"
  shows "\<exists>s. to_jsonable LOCAL_TZ (DatetimeWithNanoseconds v ns) = Inr (PyStr s)
           \<and> to_jsonable LOCAL_TZ (Datetime v) = Inr (PyStr s)
           \<and> is_iso8601 s \<and> iso_utcoffset s = utcoffset LOCAL_TZ (civil v)"
proof -
  let ?s = "isoformat \<lparr>civil = civil v, tzinfo = Some LOCAL_TZ\<rparr>"
  have r: "replace_tzinfo v LOCAL_TZ = \<lparr>civil = civil v, tzinfo = Some LOCAL_TZ\<rparr>"
    by (simp add: replace_tzinfo_def)
  have "to_jsonable LOCAL_TZ (DatetimeWithNanoseconds v ns) = Inr (PyStr ?s)"
    by (simp add: r)
  moreover have "to_jsonable LOCAL_TZ (Datetime v) = Inr (PyStr ?s)"
    using assms(2) by (simp add: r astimezone_def)
  moreover note isoformat_local[OF assms(1,3,4)]
  ultimately show ?thesis by blast
qed

theorem naive_timestamp_local_offset_witness:
  "valid_civil (civil july_naive) \<and> tzinfo july_naive = None
   \<and> valid_offset (utcoffset SANTIAGO (civil july_naive))
   \<and> utcoffset SANTIAGO (civil july_naive) mod 60 = 0
   \<and> to_jsonable SANTIAGO (Datetime july_naive) = Inr (PyStr ''2024-07-01T12:30:05-04:00'')
   \<and> (\<exists>s. to_jsonable SANTIAGO (DatetimeWithNanoseconds july_naive 0) = Inr (PyStr s)
           \<and> to_jsonable SANTIAGO (Datetime july_naive) = Inr (PyStr s)
           \<and> is_iso8601 s \<and> iso_utcoffset s = - 14400)"
proof -
  have a: "valid_civil (civil july_naive)"
    by (simp add: july_naive_def reading_def valid_civil_def days_in_month_def
        DAYS_IN_MONTH_def)
  have b: "tzinfo july_naive = None" by (simp add: july_naive_def)
  have d: "utcoffset SANTIAGO (civil july_naive) = - 14400"
    by (simp add: july_naive_def reading_def SANTIAGO_def santiago_offset_def)
  have c: "valid_offset (utcoffset SANTIAGO (civil july_naive))"
    unfolding d by (simp add: valid_offset_def)
  have m: "utcoffset SANTIAGO (civil july_naive) mod 60 = 0"
    unfolding d by simp
  have e: "to_jsonable SANTIAGO (Datetime july_naive) = Inr (PyStr ''2024-07-01T12:30:05-04:00'')"
    by (simp add: july_naive_def reading_def SANTIAGO_def santiago_offset_def astimezone_def
        replace_tzinfo_def isoformat_def format_time_def format_offset_def zero_pad_def
        str_nat.simps digit_char_def)
  show ?thesis
    using a b c m e naive_timestamp_local_offset [OF a b c m, of 0] unfolding d by auto
qed

section \<open>JSON types of the result\<close>

text \<open>
  C2, as stated, fails: bytes and document references are document field values, the
  cascade has no branch for them, and they come back as they are, here inside a mapping.
\<close>

theorem bytes_field_not_json:
  "to_jsonable SANTIAGO (PyDict [(''firma'', PyBytes ''ab'')]) = Inr (PyDict [(''firma'', PyBytes ''ab'')])
   \<and> \<not> json_typed (PyDict [(''firma'', PyBytes ''ab'')])"
  by simp

text \<open>
  C2, amended. For every document field value in which no bytes value and no document
  reference occurs at any depth, the normalizer returns a value, and every value in it,
  at any depth, is a string, a number, a boolean, null, a list or a mapping.
\<close>

theorem to_jsonable_json_types:
  assumes "field_value v" and "opaque_free v"
  shows "\<exists>r. to_jsonable LOCAL_TZ v = Inr r \<and> json_typed r"
proof (cases "to_jsonable LOCAL_TZ v")
  case (Inl e)
  with to_jsonable_errors(1)[of LOCAL_TZ v e] field_value_no_overflow(1)[of v LOCAL_TZ] assms(1)
  show ?thesis by simp
next
  case (Inr r)
  with to_jsonable_json_typed(1)[of v LOCAL_TZ r] assms(2) show ?thesis by simp
qed

theorem to_jsonable_json_types_witness:
  "field_value (PyDict [(''creado'', DatetimeWithNanoseconds noon_utc 0),
                        (''pos'', GeoPoint (Finite 1) (Finite 2)),
                        (''xs'', PyList [PyInt 1, PyNone])])
   \<and> opaque_free (PyDict [(''creado'', DatetimeWithNanoseconds noon_utc 0),
                        (''pos'', GeoPoint (Finite 1) (Finite 2)),
                        (''xs'', PyList [PyInt 1, PyNone])])
   \<and> (\<exists>r. to_jsonable SANTIAGO (PyDict [(''creado'', DatetimeWithNanoseconds noon_utc 0),
                        (''pos'', GeoPoint (Finite 1) (Finite 2)),
                        (''xs'', PyList [PyInt 1, PyNone])]) = Inr r \<and> json_typed r)"
  using to_jsonable_json_types [of "PyDict [(''creado'', DatetimeWithNanoseconds noon_utc 0),
                        (''pos'', GeoPoint (Finite 1) (Finite 2)),
                        (''xs'', PyList [PyInt 1, PyNone])]" SANTIAGO]
  by simp

section \<open>The filter value of the query\<close>

text \<open>
  C3, as stated, fails: with two pairs of quotes around \<^verbatim>\<open>abc\<close>, the query filters on
  \<^verbatim>\<open>abc\<close>, where stripping exactly one pair would leave one pair in place.
\<close>

theorem strip_more_than_one_pair:
  "map_sum id q_value (col_ref ''campana'' ([DQ, DQ] @ ''abc'' @ [DQ, DQ]))
   \<noteq> Inr (strip_one_pair ([DQ, DQ] @ ''abc'' @ [DQ, DQ]))"
  by (simp add: col_ref_def COLLECTIONS_def where_eq_def strip_def strip_one_pair_def DQ_def)

text \<open>
  C3, amended. The query that fetch runs filters on the identifier without its leading
  and trailing double quotes, all of them, paired or not: the identifier is that value
  between two runs of quotes, and the value neither starts nor ends with a quote. In
  particular the quoted \<^verbatim>\<open>"abc"\<close> and the plain \<^verbatim>\<open>abc\<close> build the same query.
\<close>

theorem fetch_filter_value:
  assumes "col_ref key campana_id = Inr q"
  shows "fetch_collection LOCAL_TZ db key campana_id = docs_to_dicts LOCAL_TZ (stream db q)
    \<and> (\<exists>m n. campana_id = replicate m DQ @ q_value q @ replicate n DQ)
    \<and> (q_value q = [] \<or> (hd (q_value q) \<noteq> DQ \<and> last (q_value q) \<noteq> DQ))
    \<and> col_ref key ([DQ] @ ''abc'' @ [DQ]) = col_ref key ''abc''"
proof -
  have v: "q_value q = strip campana_id [DQ]" using assms by (rule col_ref_value)
  have "fetch_collection LOCAL_TZ db key campana_id = docs_to_dicts LOCAL_TZ (stream db q)"
    using assms by (simp add: fetch_collection_def)
  moreover have "\<exists>m n. campana_id = replicate m DQ @ q_value q @ replicate n DQ"
    unfolding v by (rule strip_decompose)
  moreover have "q_value q = [] \<or> (hd (q_value q) \<noteq> DQ \<and> last (q_value q) \<noteq> DQ)"
    unfolding v by (rule strip_ends)
  moreover have "col_ref key ([DQ] @ ''abc'' @ [DQ]) = col_ref key ''abc''"
    by (cases "map_of COLLECTIONS key") (simp_all add: col_ref_def strip_def DQ_def)
  ultimately show ?thesis by blast
qed

theorem fetch_filter_value_witness:
  "col_ref ''campana'' ([DQ, DQ] @ ''abc'' @ [DQ])
     = Inr \<lparr>q_collection = ''campana'', q_field = ''campanaID'', q_value = ''abc''\<rparr>
   \<and> fetch_collection SANTIAGO sample_db ''campana'' ([DQ, DQ] @ ''abc'' @ [DQ])
       = docs_to_dicts SANTIAGO (stream sample_db
           \<lparr>q_collection = ''campana'', q_field = ''campanaID'', q_value = ''abc''\<rparr>)
   \<and> col_ref ''campana'' ([DQ] @ ''abc'' @ [DQ]) = col_ref ''campana'' ''abc''"
proof -
  have h: "col_ref ''campana'' ([DQ, DQ] @ ''abc'' @ [DQ])
     = Inr \<lparr>q_collection = ''campana'', q_field = ''campanaID'', q_value = ''abc''\<rparr>"
    by (simp add: col_ref_def COLLECTIONS_def where_eq_def strip_def DQ_def)
  show ?thesis
    using h fetch_filter_value [OF h, of SANTIAGO sample_db] by simp
qed

section \<open>The HTTP layer\<close>

lemma fetch_campana:
  "fetch_collection LOCAL_TZ db ''campana'' campana_id =
     docs_to_dicts LOCAL_TZ (stream db (where_eq ''campana'' ''campanaID'' (strip campana_id [DQ])))"
  by (simp add: fetch_collection_def col_ref_def COLLECTIONS_def)

lemma fetch_estacion:
  "fetch_collection LOCAL_TZ db ''estacion'' campana_id =
     docs_to_dicts LOCAL_TZ (stream db (where_eq ''Estacion'' ''campanaID'' (strip campana_id [DQ])))"
  by (simp add: fetch_collection_def col_ref_def COLLECTIONS_def)

lemma JSONResponse_body:
  "JSONResponse content = Inr resp \<Longrightarrow> resp = \<lparr>status_code = 200, body = content\<rparr>"
  by (auto simp: JSONResponse_def split: option.splits)

lemma get_campana_not_empty_200:
  "get_campana LOCAL_TZ db campana_id \<noteq> Inr \<lparr>status_code = 200, body = PyList []\<rparr>"
proof
  assume a: "get_campana LOCAL_TZ db campana_id = Inr \<lparr>status_code = 200, body = PyList []\<rparr>"
  then obtain items where i: "items \<noteq> []"
    and j: "JSONResponse (PyList (map PyDict items)) = Inr \<lparr>status_code = 200, body = PyList []\<rparr>"
    by (auto simp: get_campana_def split: sum.splits if_splits)
  from JSONResponse_body[OF j] have "map PyDict items = []" by simp
  with i show False by simp
qed

lemma get_estacion_not_empty_200:
  "get_estacion LOCAL_TZ db campana_id \<noteq> Inr \<lparr>status_code = 200, body = PyList []\<rparr>"
proof
  assume a: "get_estacion LOCAL_TZ db campana_id = Inr \<lparr>status_code = 200, body = PyList []\<rparr>"
  then obtain items where i: "items \<noteq> []"
    and j: "JSONResponse (PyList (map PyDict items)) = Inr \<lparr>status_code = 200, body = PyList []\<rparr>"
    by (auto simp: get_estacion_def split: sum.splits if_splits)
  from JSONResponse_body[OF j] have "map PyDict items = []" by simp
  with i show False by simp
qed

text \<open>
  C4, as stated, fails in its second half: a matching document with a bytes field gives a
  non-empty list, and building the response raises \<^verbatim>\<open>TypeError\<close> where the claim has a
  200.
\<close>

theorem bytes_field_no_200:
  "fetch_collection SANTIAGO sample_db ''campana'' ''B''
     = Inr [[(''campanaID'', PyStr ''B''), (''firma'', PyBytes ''ab''), (''id'', PyStr ''d2'')]]
   \<and> get_campana SANTIAGO sample_db ''B'' = Inl TypeError"
proof -
  have f: "fetch_collection SANTIAGO sample_db ''campana'' ''B''
     = Inr [[(''campanaID'', PyStr ''B''), (''firma'', PyBytes ''ab''), (''id'', PyStr ''d2'')]]"
    by (simp add: fetch_campana strip_def DQ_def sample_stream doc_to_dict_def or_empty_def
        doc_blob_def)
  show ?thesis
    unfolding get_campana_def f by (simp add: JSONResponse_def)
qed

text \<open>
  C4, amended. For both endpoints: when the query yields no document the handler raises
  the HTTP exception 404 with its message, and it never answers 200 with an empty array;
  when the list fetched is not empty and the JSON encoder accepts it (no bytes, no
  document reference, no float that is not finite), the answer is 200 with the array of
  normalized documents.
\<close>

theorem http_layer:
  "(stream db (where_eq ''campana'' ''campanaID'' (strip campana_id [DQ])) = []
      \<longrightarrow> get_campana LOCAL_TZ db campana_id
          = Inl (HTTPException 404 ''Sin documentos en 'campana' para ese campana_id.''))
   \<and> (stream db (where_eq ''Estacion'' ''campanaID'' (strip campana_id [DQ])) = []
      \<longrightarrow> get_estacion LOCAL_TZ db campana_id
          = Inl (HTTPException 404 ''Sin documentos en 'Estacion' para ese campana_id.''))
   \<and> get_campana LOCAL_TZ db campana_id \<noteq> Inr \<lparr>status_code = 200, body = PyList []\<rparr>
   \<and> get_estacion LOCAL_TZ db campana_id \<noteq> Inr \<lparr>status_code = 200, body = PyList []\<rparr>
   \<and> (\<forall>items. fetch_collection LOCAL_TZ db ''campana'' campana_id = Inr items \<and> items \<noteq> []
         \<and> dumps_error (PyList (map PyDict items)) = None
      \<longrightarrow> get_campana LOCAL_TZ db campana_id
          = Inr \<lparr>status_code = 200, body = PyList (map PyDict items)\<rparr>)
   \<and> (\<forall>items. fetch_collection LOCAL_TZ db ''estacion'' campana_id = Inr items \<and> items \<noteq> []
         \<and> dumps_error (PyList (map PyDict items)) = None
      \<longrightarrow> get_estacion LOCAL_TZ db campana_id
          = Inr \<lparr>status_code = 200, body = PyList (map PyDict items)\<rparr>)"
proof (intro conjI impI allI)
  assume "stream db (where_eq ''campana'' ''campanaID'' (strip campana_id [DQ])) = []"
  then show "get_campana LOCAL_TZ db campana_id
          = Inl (HTTPException 404 ''Sin documentos en 'campana' para ese campana_id.'')"
    by (simp add: get_campana_def fetch_campana)
next
  assume "stream db (where_eq ''Estacion'' ''campanaID'' (strip campana_id [DQ])) = []"
  then show "get_estacion LOCAL_TZ db campana_id
          = Inl (HTTPException 404 ''Sin documentos en 'Estacion' para ese campana_id.'')"
    by (simp add: get_estacion_def fetch_estacion)
next
  show "get_campana LOCAL_TZ db campana_id \<noteq> Inr \<lparr>status_code = 200, body = PyList []\<rparr>"
    by (rule get_campana_not_empty_200)
next
  show "get_estacion LOCAL_TZ db campana_id \<noteq> Inr \<lparr>status_code = 200, body = PyList []\<rparr>"
    by (rule get_estacion_not_empty_200)
next
  fix items
  assume "fetch_collection LOCAL_TZ db ''campana'' campana_id = Inr items \<and> items \<noteq> []
         \<and> dumps_error (PyList (map PyDict items)) = None"
  then show "get_campana LOCAL_TZ db campana_id
          = Inr \<lparr>status_code = 200, body = PyList (map PyDict items)\<rparr>"
    by (simp add: get_campana_def JSONResponse_def)
next
  fix items
  assume "fetch_collection LOCAL_TZ db ''estacion'' campana_id = Inr items \<and> items \<noteq> []
         \<and> dumps_error (PyList (map PyDict items)) = None"
  then show "get_estacion LOCAL_TZ db campana_id
          = Inr \<lparr>status_code = 200, body = PyList (map PyDict items)\<rparr>"
    by (simp add: get_estacion_def JSONResponse_def)
qed

theorem http_layer_witness:
  "stream sample_db (where_eq ''campana'' ''campanaID'' (strip ''nada'' [DQ])) = []
   \<and> stream sample_db (where_eq ''Estacion'' ''campanaID'' (strip ''nada'' [DQ])) = []
   \<and> get_campana SANTIAGO sample_db ''nada''
       = Inl (HTTPException 404 ''Sin documentos en 'campana' para ese campana_id.'')
   \<and> get_estacion SANTIAGO sample_db ''nada''
       = Inl (HTTPException 404 ''Sin documentos en 'Estacion' para ese campana_id.'')
   \<and> fetch_collection SANTIAGO sample_db ''campana'' ([DQ] @ ''XYZ'' @ [DQ])
       = Inr [[(''campanaID'', PyStr ''XYZ''), (''nombre'', PyStr ''Test''),
               (''creado'', PyStr ''2024-01-01T12:00:00-03:00''), (''id'', PyStr ''d1'')]]
   \<and> get_campana SANTIAGO sample_db ([DQ] @ ''XYZ'' @ [DQ])
       = Inr \<lparr>status_code = 200,
              body = PyList [PyDict [(''campanaID'', PyStr ''XYZ''), (''nombre'', PyStr ''Test''),
               (''creado'', PyStr ''2024-01-01T12:00:00-03:00''), (''id'', PyStr ''d1'')]]\<rparr>"
proof -
  have a: "stream sample_db (where_eq ''campana'' ''campanaID'' (strip ''nada'' [DQ])) = []"
    by (simp add: strip_def DQ_def sample_stream)
  have b: "stream sample_db (where_eq ''Estacion'' ''campanaID'' (strip ''nada'' [DQ])) = []"
    by (simp add: strip_def DQ_def sample_stream)
  have c: "fetch_collection SANTIAGO sample_db ''campana'' ([DQ] @ ''XYZ'' @ [DQ])
       = Inr [[(''campanaID'', PyStr ''XYZ''), (''nombre'', PyStr ''Test''),
               (''creado'', PyStr ''2024-01-01T12:00:00-03:00''), (''id'', PyStr ''d1'')]]"
    by (simp add: fetch_campana strip_def DQ_def sample_stream doc_xyz_dict)
  have d: "dumps_error (PyList (map PyDict [[(''campanaID'', PyStr ''XYZ''), (''nombre'', PyStr ''Test''),
               (''creado'', PyStr ''2024-01-01T12:00:00-03:00''), (''id'', PyStr ''d1'')]])) = None"
    by simp
  show ?thesis
    using a b c d http_layer [of sample_db "''nada''" SANTIAGO]
      http_layer [of sample_db "[DQ] @ ''XYZ'' @ [DQ]" SANTIAGO]
    by simp
qed

section \<open>Idempotence\<close>

text \<open>
  C5. For every value the normalizer returns a result for, lists and mappings nested to
  any depth included, normalizing the result again returns the same result.
\<close>

theorem to_jsonable_idempotent:
  assumes "to_jsonable LOCAL_TZ v = Inr r"
  shows "to_jsonable LOCAL_TZ r = Inr r"
  using assms to_jsonable_fixed(1) by blast

theorem to_jsonable_idempotent_witness:
  "to_jsonable SANTIAGO (PyList [PyDict [(''t'', DatetimeWithNanoseconds noon_utc 0),
                                         (''n'', NpInteger 3)],
                                 GeoPoint (Finite 1) (Finite 2), PyList [NpBool True]])
     = Inr (PyList [PyDict [(''t'', PyStr ''2024-01-01T12:00:00-03:00''), (''n'', PyInt 3)],
                    PyDict [(''latitude'', PyFloat (Finite 1)), (''longitude'', PyFloat (Finite 2))],
                    PyList [PyBool True]])
   \<and> to_jsonable SANTIAGO
         (PyList [PyDict [(''t'', PyStr ''2024-01-01T12:00:00-03:00''), (''n'', PyInt 3)],
                  PyDict [(''latitude'', PyFloat (Finite 1)), (''longitude'', PyFloat (Finite 2))],
                  PyList [PyBool True]])
     = Inr (PyList [PyDict [(''t'', PyStr ''2024-01-01T12:00:00-03:00''), (''n'', PyInt 3)],
                    PyDict [(''latitude'', PyFloat (Finite 1)), (''longitude'', PyFloat (Finite 2))],
                    PyList [PyBool True]])"
proof -
  have h: "to_jsonable SANTIAGO (PyList [PyDict [(''t'', DatetimeWithNanoseconds noon_utc 0),
                                         (''n'', NpInteger 3)],
                                 GeoPoint (Finite 1) (Finite 2), PyList [NpBool True]])
     = Inr (PyList [PyDict [(''t'', PyStr ''2024-01-01T12:00:00-03:00''), (''n'', PyInt 3)],
                    PyDict [(''latitude'', PyFloat (Finite 1)), (''longitude'', PyFloat (Finite 2))],
                    PyList [PyBool True]])"
    by (simp add: noon_utc_iso)
  show ?thesis using h to_jsonable_idempotent [OF h] by simp
qed

section \<open>Normalized documents\<close>

lemma field_value_items_total:
  assumes "field_value_items src"
  shows "\<exists>r. to_jsonable_items LOCAL_TZ src = Inr r"
proof (cases "to_jsonable_items LOCAL_TZ src")
  case (Inl e)
  with to_jsonable_errors(3)[of LOCAL_TZ src e] field_value_no_overflow(3)[of src LOCAL_TZ] assms
  show ?thesis by simp
next
  case (Inr r)
  then show ?thesis by simp
qed

text \<open>
  C7, as stated, fails for a document that has a field named \<^verbatim>\<open>id\<close> itself: the
  identifier is stored under that key after the comprehension, so the value of the field
  is not the normalized source value.
\<close>

theorem id_field_overwritten:
  "doc_to_dict SANTIAGO doc_with_id = Inr [(''id'', PyStr ''d3'')]
   \<and> \<not> normalized_document SANTIAGO ''d3'' [(''id'', PyInt 7)] [(''id'', PyStr ''d3'')]"
  by (simp add: doc_to_dict_def or_empty_def doc_with_id_def normalized_document_def)

text \<open>
  C7, amended. For every document of the store, the conversion returns a mapping whose
  keys are the keys of the document and \<^verbatim>\<open>id\<close>, with \<^verbatim>\<open>id\<close> bound to the identifier the
  store assigned and every other key bound to the normalized value of the source field.
  The hypotheses hold of every document the store returns: its values are of the kinds
  the store decodes, and a dict has each key once.
\<close>

theorem doc_to_dict_normalized:
  assumes "field_value_items (or_empty (to_dict doc))"
    and "distinct (map fst (or_empty (to_dict doc)))"
  shows "\<exists>r. doc_to_dict LOCAL_TZ doc = Inr r
           \<and> normalized_document_but_id LOCAL_TZ (doc_id doc) (or_empty (to_dict doc)) r"
proof -
  let ?src = "or_empty (to_dict doc)"
  from field_value_items_total[OF assms(1)] obtain data where
    data: "to_jsonable_items LOCAL_TZ ?src = Inr data" by blast
  let ?r = "dict_setitem data ''id'' (PyStr (doc_id doc))"
  have r: "doc_to_dict LOCAL_TZ doc = Inr ?r"
    by (simp add: doc_to_dict_def data)
  have "set (map fst ?r) = insert ''id'' (set (map fst data))"
    by (rule keys_dict_setitem)
  then have keys: "set (map fst ?r) = set (map fst ?src) \<union> {''id''}"
    unfolding items_keys[OF data] by blast
  have ident: "map_of ?r ''id'' = Some (PyStr (doc_id doc))"
    by (simp add: map_of_dict_setitem)
  have vals: "list_all (\<lambda>(k, v). k = ''id''
      \<or> map_sum id Some (to_jsonable LOCAL_TZ v) = Inr (map_of ?r k)) ?src"
    unfolding list_all_iff
  proof (intro ballI)
    fix kv assume mem: "kv \<in> set ?src"
    obtain k v where kv: "kv = (k, v)" by (cases kv)
    from items_values[OF data assms(2)] mem kv obtain v' where
      v': "to_jsonable LOCAL_TZ v = Inr v'" "map_of data k = Some v'" by blast
    show "case kv of (k, v) \<Rightarrow> k = ''id''
      \<or> map_sum id Some (to_jsonable LOCAL_TZ v) = Inr (map_of ?r k)"
      using v' kv by (simp add: map_of_dict_setitem)
  qed
  show ?thesis
    using r keys ident vals unfolding normalized_document_but_id_def by blast
qed

theorem doc_to_dict_normalized_witness:
  "field_value_items (or_empty (to_dict doc_xyz))
   \<and> distinct (map fst (or_empty (to_dict doc_xyz)))
   \<and> doc_to_dict SANTIAGO doc_xyz
       = Inr [(''campanaID'', PyStr ''XYZ''), (''nombre'', PyStr ''Test''),
              (''creado'', PyStr ''2024-01-01T12:00:00-03:00''), (''id'', PyStr ''d1'')]
   \<and> (\<exists>r. doc_to_dict SANTIAGO doc_xyz = Inr r
           \<and> normalized_document_but_id SANTIAGO (doc_id doc_xyz) (or_empty (to_dict doc_xyz)) r)"
proof -
  have a: "field_value_items (or_empty (to_dict doc_xyz))"
    by (simp add: doc_xyz_def or_empty_def)
  have b: "distinct (map fst (or_empty (to_dict doc_xyz)))"
    by (simp add: doc_xyz_def or_empty_def)
  have c: "doc_to_dict SANTIAGO doc_xyz
       = Inr [(''campanaID'', PyStr ''XYZ''), (''nombre'', PyStr ''Test''),
              (''creado'', PyStr ''2024-01-01T12:00:00-03:00''), (''id'', PyStr ''d1'')]"
    by (rule doc_xyz_dict)
  show ?thesis
    using a b c doc_to_dict_normalized [OF a b, of SANTIAGO] by blast
qed

text \<open>
  C10. For a document whose data is absent (\<^verbatim>\<open>to_dict()\<close> is \<^verbatim>\<open>None\<close>) or empty, the
  conversion returns the mapping with the single key \<^verbatim>\<open>id\<close>, bound to the identifier the
  store assigned.
\<close>

theorem doc_to_dict_no_data:
  assumes "to_dict doc = None \<or> to_dict doc = Some []"
  shows "doc_to_dict LOCAL_TZ doc = Inr [(''id'', PyStr (doc_id doc))]"
  using assms by (auto simp: doc_to_dict_def or_empty_def)

theorem doc_to_dict_no_data_witness:
  "doc_to_dict SANTIAGO \<lparr>doc_id = ''d9'', to_dict = None\<rparr> = Inr [(''id'', PyStr ''d9'')]"
  using doc_to_dict_no_data [of "\<lparr>doc_id = ''d9'', to_dict = None\<rparr>" SANTIAGO] by simp

section \<open>Failures and values passed through\<close>

text \<open>The day numbers that bound the representable readings are those of the two dates.\<close>

lemma ordinal_bounds: "ymd2ord 1 1 1 = 1" "int (ymd2ord 9999 12 31) = MAXORDINAL"
  by (simp_all add: ymd2ord_def days_before_year_def days_before_month_def
      DAYS_BEFORE_MONTH_def is_leap_def MAXORDINAL_def)

text \<open>
  C8, as stated, fails in its first half: the normalizer has a failure mode. A plain
  \<^verbatim>\<open>datetime\<close> at midnight UTC on 1 January of year 1 cannot be moved to a zone behind
  UTC, and the conversion raises \<^verbatim>\<open>OverflowError\<close>.
\<close>

theorem aware_datetime_overflow:
  "to_jsonable SANTIAGO (Datetime first_utc) = Inl OverflowError"
  by (simp add: first_utc_def reading_def UTC_def SANTIAGO_def santiago_offset_def
      astimezone_def add_seconds_def fromutc_def ymd2ord_def ord2ymd_def days_before_year_def
      days_before_month_def DAYS_BEFORE_MONTH_def DAYS_IN_MONTH_def is_leap_def
      MAXORDINAL_def Let_def)

text \<open>
  C8, amended. Every input whose kind the cascade does not test for is returned
  unchanged, without failure. The normalizer is not free of failure modes: on a plain
  \<^verbatim>\<open>datetime\<close> it raises \<^verbatim>\<open>OverflowError\<close> exactly when the value carries a zone object
  other than the local one and its reading in UTC, or the local reading of that instant,
  falls outside the dates 0001-01-01 to 9999-12-31; on every other plain \<^verbatim>\<open>datetime\<close> it
  returns a string; and it returns no result for an input that holds, at any depth, a
  \<^verbatim>\<open>datetime\<close> on which it raises.
\<close>

theorem to_jsonable_failures:
  "(\<not> recognized u \<longrightarrow> to_jsonable LOCAL_TZ u = Inr u)
   \<and> (to_jsonable LOCAL_TZ (Datetime v) = Inl OverflowError) = conversion_overflows LOCAL_TZ v
   \<and> (\<not> conversion_overflows LOCAL_TZ v
        \<longrightarrow> (\<exists>s. to_jsonable LOCAL_TZ (Datetime v) = Inr (PyStr s)))
   \<and> (holds_overflow LOCAL_TZ w \<longrightarrow> (\<exists>e. to_jsonable LOCAL_TZ w = Inl e))"
  using unrecognized_unchanged[of u LOCAL_TZ] datetime_overflow[of LOCAL_TZ v]
    datetime_result[of LOCAL_TZ v] holds_overflow_fails(1)[of LOCAL_TZ w]
  by blast

theorem to_jsonable_failures_witness:
  "\<not> recognized (PyBytes ''ab'') \<and> to_jsonable SANTIAGO (PyBytes ''ab'') = Inr (PyBytes ''ab'')
   \<and> conversion_overflows SANTIAGO first_utc
   \<and> to_jsonable SANTIAGO (Datetime first_utc) = Inl OverflowError
   \<and> conversion_overflows SANTIAGO last_hour_copy
   \<and> to_jsonable SANTIAGO (Datetime last_hour_copy) = Inl OverflowError
   \<and> \<not> conversion_overflows SANTIAGO noon_utc
   \<and> (\<exists>s. to_jsonable SANTIAGO (Datetime noon_utc) = Inr (PyStr s))
   \<and> holds_overflow SANTIAGO (PyList [PyDict [(''t'', Datetime first_utc)]])
   \<and> (\<exists>e. to_jsonable SANTIAGO (PyList [PyDict [(''t'', Datetime first_utc)]]) = Inl e)"
proof -
  have a: "\<not> recognized (PyBytes ''ab'')" by simp
  have b: "conversion_overflows SANTIAGO first_utc"
    by (simp add: conversion_overflows_def representable_def day_number_def first_utc_def
        reading_def UTC_def SANTIAGO_def santiago_offset_def add_seconds_def ymd2ord_def
        ord2ymd_def days_before_year_def days_before_month_def DAYS_BEFORE_MONTH_def
        DAYS_IN_MONTH_def is_leap_def MAXORDINAL_def Let_def)
  have c: "conversion_overflows SANTIAGO last_hour_copy"
    by (simp add: conversion_overflows_def representable_def day_number_def last_hour_copy_def
        reading_def SANTIAGO_COPY_def SANTIAGO_def santiago_offset_def add_seconds_def
        ymd2ord_def ord2ymd_def days_before_year_def days_before_month_def
        DAYS_BEFORE_MONTH_def DAYS_IN_MONTH_def is_leap_def MAXORDINAL_def Let_def)
  have d: "\<not> conversion_overflows SANTIAGO noon_utc"
    by (simp add: conversion_overflows_def representable_def day_number_def noon_utc_def
        reading_def UTC_def SANTIAGO_def santiago_offset_def add_seconds_def ymd2ord_def
        ord2ymd_def days_before_year_def days_before_month_def DAYS_BEFORE_MONTH_def
        DAYS_IN_MONTH_def is_leap_def MAXORDINAL_def Let_def)
  have e: "holds_overflow SANTIAGO (PyList [PyDict [(''t'', Datetime first_utc)]])"
    using b by simp
  show ?thesis
    using a b c d e
      to_jsonable_failures [of "PyBytes ''ab''" SANTIAGO first_utc
        "PyList [PyDict [(''t'', Datetime first_utc)]]"]
      to_jsonable_failures [of "PyBytes ''ab''" SANTIAGO last_hour_copy PyNone]
      to_jsonable_failures [of "PyBytes ''ab''" SANTIAGO noon_utc PyNone]
    by blast
qed

section \<open>Geo-points\<close>

text \<open>
  C9. For every geo-point with latitude \<open>lat\<close> and longitude \<open>lon\<close>, the normalizer
  returns exactly the mapping with the two keys \<^verbatim>\<open>latitude\<close> and \<^verbatim>\<open>longitude\<close>, bound to
  \<open>lat\<close> and \<open>lon\<close>, and no other key.
\<close>

theorem to_jsonable_geopoint:
  "to_jsonable LOCAL_TZ (GeoPoint lat lon) =
     Inr (PyDict [(''latitude'', PyFloat lat), (''longitude'', PyFloat lon)])"
  by simp

end
